theory Spec2Isabelle
  imports Main "HOL-Library.Sublist" "HOL-Library.Multiset"
begin

section \<open>Data model (types.ts)\<close>

text \<open>
  Strings are byte lists: a JavaScript string is modelled by the bytes of its UTF-8
  encoding, so the emoji of the sync tag is four bytes. Optional properties
  (\<^verbatim>\<open>summary?: string\<close>) are \<open>option\<close>s; \<open>None\<close> is \<^verbatim>\<open>undefined\<close>.
\<close>

text \<open>
  \<^verbatim>\<open>EventDateTime\<close> is \<^verbatim>\<open>{ dateTime: string; timeZone?: string } | { date: string }\<close>. At run
  time a value of it is an object: its properties, each a name and a string, in the order
  in which the object holds them (the order \<^verbatim>\<open>JSON.stringify\<close> and \<^verbatim>\<open>JSON.parse\<close> keep).
  The object is modelled by the list of its properties in that order; a property whose
  value is \<^verbatim>\<open>undefined\<close> is left out (the code reads \<^verbatim>\<open>timeZone\<close> by value only, and
  \<^verbatim>\<open>JSON.stringify\<close> skips such a property).
\<close>

type_synonym EventDateTime = "(string \<times> string) list"

text \<open>\<^verbatim>\<open>dt.name\<close>; \<^verbatim>\<open>name in dt\<close> holds when it is not \<open>None\<close>.\<close>

definition property :: "EventDateTime \<Rightarrow> string \<Rightarrow> string option" where
  "property dt name = map_of dt name"

record Attendee =
  email :: string
  displayName :: "string option"
  resource :: "bool option"
  responseStatus :: "string option"
  self :: "bool option"

record GoogleCalendarEvent =
  id' :: string
  summary :: "string option"
  start :: "EventDateTime option"
  end' :: "EventDateTime option"
  location :: "string option"
  description :: "string option"
  attendees :: "Attendee list option"
  hangoutLink :: "string option"
  transparency :: "string option"
  status :: "string option"
  recurringEventId :: "string option"

text \<open>The field \<^verbatim>\<open>id\<close> of a ledger row is its 1-indexed row number in the sheet.\<close>

record SyncedEventRecord =
  rowNumber :: int
  primary_calendar :: string
  primary_event_id :: string
  secondary_calendar :: string
  secondary_event_id :: string
  event_summary :: string
  event_start :: string
  event_end :: string
  event_signature :: string
  created_at :: string
  last_updated :: string
  last_checked :: string

record SyncAnalysis =
  toCreate :: "GoogleCalendarEvent list"
  toUpdate :: "(GoogleCalendarEvent \<times> SyncedEventRecord) list"
  unchanged :: nat
  skippedDuplicate :: nat

record SyncStats =
  created :: nat
  updated :: nat
  deleted :: nat
  errors :: nat

section \<open>JavaScript string helpers\<close>

text \<open>\<^verbatim>\<open>x ?? ""\<close> on an optional string.\<close>

definition orEmpty :: "string option \<Rightarrow> string" where
  "orEmpty x = (case x of None \<Rightarrow> [] | Some s \<Rightarrow> s)"

text \<open>Truthiness of an optional string: defined and not empty.\<close>

definition truthy :: "string option \<Rightarrow> bool" where
  "truthy x = (case x of None \<Rightarrow> False | Some s \<Rightarrow> s \<noteq> [])"

text \<open>\<^verbatim>\<open>s.includes(sub)\<close>: \<open>sub\<close> occurs in \<open>s\<close> as a contiguous block.\<close>

fun includesStr :: "string \<Rightarrow> string \<Rightarrow> bool" where
  "includesStr [] sub = (sub = [])"
| "includesStr (c # cs) sub = (prefix sub (c # cs) \<or> includesStr cs sub)"

text \<open>\<^verbatim>\<open>parts.join(sep)\<close>.\<close>

fun join :: "string \<Rightarrow> string list \<Rightarrow> string" where
  "join sep [] = []"
| "join sep [x] = x"
| "join sep (x # y # ys) = x @ sep @ join sep (y # ys)"

definition hexDigit :: "nat \<Rightarrow> char" where
  "hexDigit n = ''0123456789abcdef'' ! n"

text \<open>
  \<^verbatim>\<open>JSON.stringify\<close> on a string: the quote, the backslash and the control characters
  below 0x20 are escaped, everything else is copied.
\<close>

definition jsonQuoteChar :: "char \<Rightarrow> string" where
  "jsonQuoteChar c =
     (if c = CHR 0x22 then [CHR 0x5C, CHR 0x22]
      else if c = CHR 0x5C then [CHR 0x5C, CHR 0x5C]
      else if c = CHR 0x08 then [CHR 0x5C, CHR ''b'']
      else if c = CHR 0x0C then [CHR 0x5C, CHR ''f'']
      else if c = CHR 0x0A then [CHR 0x5C, CHR ''n'']
      else if c = CHR 0x0D then [CHR 0x5C, CHR ''r'']
      else if c = CHR 0x09 then [CHR 0x5C, CHR ''t'']
      else if (of_char c :: nat) < 32
        then [CHR 0x5C, CHR ''u'', CHR ''0'', CHR ''0'',
              hexDigit ((of_char c :: nat) div 16), hexDigit ((of_char c :: nat) mod 16)]
      else [c])"

definition jsonString :: "string \<Rightarrow> string" where
  "jsonString s = [CHR 0x22] @ concat (map jsonQuoteChar s) @ [CHR 0x22]"

text \<open>
  \<^verbatim>\<open>JSON.stringify(event.start)\<close> inside a template literal: an absent value prints as
  \<^verbatim>\<open>undefined\<close>; an object prints its properties in the order in which it holds them, each
  as \<^verbatim>\<open>"name":"value"\<close>, separated by commas.
\<close>

definition jsonProperty :: "string \<times> string \<Rightarrow> string" where
  "jsonProperty p = jsonString (fst p) @ '':'' @ jsonString (snd p)"

definition stringifyDateTime :: "EventDateTime option \<Rightarrow> string" where
  "stringifyDateTime dt =
     (case dt of
        None \<Rightarrow> ''undefined''
      | Some properties \<Rightarrow> ''{'' @ join '','' (map jsonProperty properties) @ ''}'')"

section \<open>Event utilities (event-utils.ts)\<close>

definition SYNC_TAG :: string where
  "SYNC_TAG = [CHR 0xF0, CHR 0x9F, CHR 0x94, CHR 0x84] @ '' SYNCED FROM:''"

definition computeSignature :: "GoogleCalendarEvent \<Rightarrow> string" where
  "computeSignature event =
     orEmpty (summary event) @ ''|'' @ stringifyDateTime (start event) @ ''|'' @
     stringifyDateTime (end' event) @ ''|'' @ orEmpty (location event) @ ''|'' @
     orEmpty (transparency event) @ ''|'' @ orEmpty (hangoutLink event) @ ''|'' @
     orEmpty (description event)"

definition normalizeDateTime :: "EventDateTime option \<Rightarrow> EventDateTime option" where
  "normalizeDateTime dt =
     (case dt of
        None \<Rightarrow> None
      | Some properties \<Rightarrow>
          (case property properties ''date'' of
             Some d \<Rightarrow> Some [(''date'', d)]
           | None \<Rightarrow>
               (case property properties ''dateTime'' of
                  Some t \<Rightarrow>
                    (if truthy (property properties ''timeZone'')
                     then Some [(''dateTime'', t),
                                (''timeZone'', orEmpty (property properties ''timeZone''))]
                     else Some [(''dateTime'', t)])
                | None \<Rightarrow> Some properties)))"

definition isSyncedCopy :: "GoogleCalendarEvent \<Rightarrow> bool" where
  "isSyncedCopy event = includesStr (orEmpty (description event)) SYNC_TAG"

definition isTargetCalendarInAttendees :: "GoogleCalendarEvent \<Rightarrow> string \<Rightarrow> bool" where
  "isTargetCalendarInAttendees event targetCalendarId =
     (case attendees event of
        None \<Rightarrow> False
      | Some as \<Rightarrow> list_ex (\<lambda>attendee. email attendee = targetCalendarId) as)"

definition roomNames :: "GoogleCalendarEvent \<Rightarrow> string list" where
  "roomNames event =
     map (\<lambda>r. case displayName r of None \<Rightarrow> email r | Some n \<Rightarrow> n)
       (filter (\<lambda>a. resource a = Some True)
          (case attendees event of None \<Rightarrow> [] | Some as \<Rightarrow> as))"

definition buildSyncedDescription :: "GoogleCalendarEvent \<Rightarrow> string \<Rightarrow> string \<Rightarrow> string" where
  "buildSyncedDescription event prefix' sourceCalendarId =
     (let parts0 = [];
          parts1 = (if roomNames event \<noteq> []
                    then parts0 @ [[CHR 0xF0, CHR 0x9F, CHR 0x93, CHR 0x8D] @ '' Room: '' @
                                   join '', '' (roomNames event)]
                    else parts0);
          parts2 = (if truthy (hangoutLink event)
                    then parts1 @ [[CHR 0xF0, CHR 0x9F, CHR 0x94, CHR 0x97] @ '' Meeting: '' @
                                   orEmpty (hangoutLink event)]
                    else parts1);
          parts3 = (if truthy (description event)
                    then parts2 @ [[CHR 0x0A] @ orEmpty (description event)]
                    else parts2);
          parts4 = parts3 @ [[CHR 0x0A] @ SYNC_TAG @ '' '' @ prefix' @ '' ('' @
                             sourceCalendarId @ '')'']
      in join [CHR 0x0A] parts4)"

text \<open>The request body sent to the calendar; \<^verbatim>\<open>location\<close> is set only when truthy.\<close>

record EventBody =
  body_summary :: string
  body_description :: string
  body_start :: "EventDateTime option"
  body_end :: "EventDateTime option"
  body_transparency :: string
  body_location :: "string option"

definition buildSyncedEventBody :: "GoogleCalendarEvent \<Rightarrow> string \<Rightarrow> string \<Rightarrow> EventBody" where
  "buildSyncedEventBody event prefix' sourceCalendarId =
     (let description = buildSyncedDescription event prefix' sourceCalendarId;
          roomName = (if roomNames event \<noteq> [] then Some (join '', '' (roomNames event)) else None);
          location = (if truthy (location event) then location event
                      else if truthy roomName then roomName
                      else None)
      in \<lparr> body_summary = prefix' @ '' '' @ orEmpty (summary event),
           body_description = description,
           body_start = normalizeDateTime (start event),
           body_end = normalizeDateTime (end' event),
           body_transparency = (case transparency event of None \<Rightarrow> ''opaque'' | Some t \<Rightarrow> t),
           body_location = location \<rparr>)"

text \<open>The key of the record map: \<^verbatim>\<open>`${id}:${calendar}`\<close>.\<close>

definition recordKey :: "string \<Rightarrow> string \<Rightarrow> string" where
  "recordKey eventId calendarId = eventId @ '':'' @ calendarId"

text \<open>The first loop of \<^verbatim>\<open>analyzeEvents\<close>: a later record replaces an earlier one of the same key.\<close>

primrec buildRecordMap ::
  "SyncedEventRecord list \<Rightarrow> (string \<rightharpoonup> SyncedEventRecord) \<Rightarrow> (string \<rightharpoonup> SyncedEventRecord)" where
  "buildRecordMap [] recordMap = recordMap"
| "buildRecordMap (record # rest) recordMap =
     buildRecordMap rest
       (recordMap(recordKey (primary_event_id record) (primary_calendar record) \<mapsto> record))"

text \<open>The body of the second loop, for one event.\<close>

definition analyzeEvent ::
  "(string \<rightharpoonup> SyncedEventRecord) \<Rightarrow> string \<Rightarrow> string \<Rightarrow> GoogleCalendarEvent \<Rightarrow>
   SyncAnalysis \<Rightarrow> SyncAnalysis" where
  "analyzeEvent recordMap sourceCalendarId targetCalendarId event acc =
     (if id' event = [] then acc
      else if isSyncedCopy event then acc\<lparr>skippedDuplicate := skippedDuplicate acc + 1\<rparr>
      else if isTargetCalendarInAttendees event targetCalendarId
        then acc\<lparr>skippedDuplicate := skippedDuplicate acc + 1\<rparr>
      else (case recordMap (recordKey (id' event) sourceCalendarId) of
              Some dbRecord \<Rightarrow>
                (if event_signature dbRecord = computeSignature event
                 then acc\<lparr>unchanged := unchanged acc + 1\<rparr>
                 else acc\<lparr>toUpdate := toUpdate acc @ [(event, dbRecord)]\<rparr>)
            | None \<Rightarrow> acc\<lparr>toCreate := toCreate acc @ [event]\<rparr>))"

primrec analyzeLoop ::
  "GoogleCalendarEvent list \<Rightarrow> (string \<rightharpoonup> SyncedEventRecord) \<Rightarrow> string \<Rightarrow> string \<Rightarrow>
   SyncAnalysis \<Rightarrow> SyncAnalysis" where
  "analyzeLoop [] recordMap sourceCalendarId targetCalendarId acc = acc"
| "analyzeLoop (event # rest) recordMap sourceCalendarId targetCalendarId acc =
     analyzeLoop rest recordMap sourceCalendarId targetCalendarId
       (analyzeEvent recordMap sourceCalendarId targetCalendarId event acc)"

definition analyzeEvents ::
  "GoogleCalendarEvent list \<Rightarrow> SyncedEventRecord list \<Rightarrow> string \<Rightarrow> string \<Rightarrow> SyncAnalysis" where
  "analyzeEvents events syncedRecords sourceCalendarId targetCalendarId =
     analyzeLoop events (buildRecordMap syncedRecords Map.empty) sourceCalendarId targetCalendarId
       \<lparr> toCreate = [], toUpdate = [], unchanged = 0, skippedDuplicate = 0 \<rparr>"

section \<open>Vocabulary of the properties\<close>

text \<open>An event passes the duplicate filter when the loop of \<^verbatim>\<open>analyzeEvents\<close> reaches the
  ledger lookup for it: its id is not empty and neither skip applies.\<close>

definition passesFilter :: "string \<Rightarrow> GoogleCalendarEvent \<Rightarrow> bool" where
  "passesFilter targetCalendarId event =
     (id' event \<noteq> [] \<and> \<not> isSyncedCopy event \<and> \<not> isTargetCalendarInAttendees event targetCalendarId)"

definition updatePair ::
  "(string \<rightharpoonup> SyncedEventRecord) \<Rightarrow> string \<Rightarrow> string \<Rightarrow> GoogleCalendarEvent \<Rightarrow>
   (GoogleCalendarEvent \<times> SyncedEventRecord) option" where
  "updatePair m src tgt e =
     (if passesFilter tgt e then
        (case m (recordKey (id' e) src) of
           Some r \<Rightarrow> if event_signature r = computeSignature e then None else Some (e, r)
         | None \<Rightarrow> None)
      else None)"


text \<open>The ledger lookup in the words of the specification: the record whose pair
  (primary calendar, primary event id) is the one asked for; the last one in the ledger when
  several rows carry the pair.\<close>

primrec lastMatch :: "('a \<Rightarrow> bool) \<Rightarrow> 'a list \<Rightarrow> 'a option" where
  "lastMatch P [] = None"
| "lastMatch P (x # xs) =
     (case lastMatch P xs of Some y \<Rightarrow> Some y | None \<Rightarrow> if P x then Some x else None)"

definition ledgerLookup :: "SyncedEventRecord list \<Rightarrow> string \<Rightarrow> string \<Rightarrow> SyncedEventRecord option" where
  "ledgerLookup ledgerRecords calendarId eventId =
     lastMatch (\<lambda>r. primary_calendar r = calendarId \<and> primary_event_id r = eventId) ledgerRecords"


text \<open>Sample data: the stand-up meeting of the specification's scenarios.\<close>

definition standup :: GoogleCalendarEvent where
  "standup = \<lparr> id' = ''e1'', summary = Some ''Standup'',
       start = Some [(''dateTime'', ''2026-03-02T09:00:00Z'')],
       end' = Some [(''dateTime'', ''2026-03-02T09:30:00Z'')],
       location = None, description = None, attendees = None, hangoutLink = None,
       transparency = None, status = None, recurringEventId = None \<rparr>"


definition trackedRow :: "string \<Rightarrow> string \<Rightarrow> string \<Rightarrow> SyncedEventRecord" where
  "trackedRow calendarId eventId signature =
     \<lparr> rowNumber = 2, primary_calendar = calendarId, primary_event_id = eventId,
       secondary_calendar = ''B'', secondary_event_id = ''copy1'', event_summary = ''Standup'',
       event_start = ''2026-03-02T09:00:00Z'', event_end = ''2026-03-02T09:30:00Z'',
       event_signature = signature, created_at = ''t0'', last_updated = ''t0'',
       last_checked = ''t0'' \<rparr>"


section \<open>Asynchronous operations and the external services\<close>

text \<open>
  A rejected promise carries an error; the only part of it the code reads is the numeric
  \<^verbatim>\<open>code\<close> (the HTTP status of a failed request).
\<close>

datatype ApiError = ApiError (code: "nat option") (reason: string)

text \<open>\<^verbatim>\<open>PromiseSettledResult<R>\<close>.\<close>

datatype 'r settled = Fulfilled 'r | Rejected ApiError

text \<open>
  An operation on the outside world \<open>'w\<close> (the two calendars, the sheet, the clock): it
  returns or throws, and leaves a new world.
\<close>

type_synonym ('a, 'w) call = "'w \<Rightarrow> (ApiError + 'a) \<times> 'w"

text \<open>One \<^verbatim>\<open>deleteDimension\<close> request on rows; the indices are 0-based, the end exclusive.\<close>

datatype SheetRequest = DeleteDimension (sheetId: int) (startIndex: int) (endIndex: int)

text \<open>The content of a Telegram message (the text is rendered from these values).\<close>

datatype Notification =
    CompletedWithErrors SyncStats SyncStats nat nat
  | SyncFailed ApiError

text \<open>
  The clients the code is given: the requests of the Google Calendar client and of the Google
  Sheets client on the ledger sheet, the clock, the timer and the Telegram endpoint. The
  properties below hold for every behaviour of these services unless they name one.
\<close>

record 'w Services =
  events_list :: "string \<Rightarrow> nat \<Rightarrow> nat \<Rightarrow> (GoogleCalendarEvent list option, 'w) call"
  events_insert :: "string \<Rightarrow> EventBody \<Rightarrow> (GoogleCalendarEvent, 'w) call"
  events_update :: "string \<Rightarrow> string \<Rightarrow> EventBody \<Rightarrow> (GoogleCalendarEvent, 'w) call"
  events_delete :: "string \<Rightarrow> string \<Rightarrow> (unit, 'w) call"
  values_get :: "(string list list option, 'w) call"
  values_append :: "string list list \<Rightarrow> (unit, 'w) call"
  values_update :: "int \<Rightarrow> string list \<Rightarrow> (unit, 'w) call"
  values_batchUpdate :: "(int \<times> string list) list \<Rightarrow> (unit, 'w) call"
  spreadsheets_get :: "((string \<times> int) list, 'w) call"
  spreadsheets_batchUpdate :: "SheetRequest list \<Rightarrow> (unit, 'w) call"
  currentTime :: "'w \<Rightarrow> string"
  setTimeout :: "nat \<Rightarrow> 'w \<Rightarrow> 'w"
  telegram_send :: "Notification \<Rightarrow> 'w \<Rightarrow> 'w"

section \<open>Calendar helpers (google-calendar.ts)\<close>

definition fetchEvents ::
  "'w Services \<Rightarrow> string \<Rightarrow> nat \<Rightarrow> nat \<Rightarrow> (GoogleCalendarEvent list, 'w) call" where
  "fetchEvents client calendarId maxEvents daysAhead w =
     (case events_list client calendarId maxEvents daysAhead w of
        (Inl error, w') \<Rightarrow> (Inl error, w')
      | (Inr items, w') \<Rightarrow> (Inr (case items of None \<Rightarrow> [] | Some evs \<Rightarrow> evs), w'))"

definition createEvent ::
  "'w Services \<Rightarrow> string \<Rightarrow> EventBody \<Rightarrow> (GoogleCalendarEvent, 'w) call" where
  "createEvent client calendarId eventBody w = events_insert client calendarId eventBody w"

definition updateEvent ::
  "'w Services \<Rightarrow> string \<Rightarrow> string \<Rightarrow> EventBody \<Rightarrow> (GoogleCalendarEvent, 'w) call" where
  "updateEvent client calendarId eventId eventBody w =
     events_update client calendarId eventId eventBody w"

text \<open>A delete answered with 410 Gone is a success.\<close>

definition deleteEvent :: "'w Services \<Rightarrow> string \<Rightarrow> string \<Rightarrow> (unit, 'w) call" where
  "deleteEvent client calendarId eventId w =
     (case events_delete client calendarId eventId w of
        (Inl error, w') \<Rightarrow> (if code error = Some 410 then (Inr (), w') else (Inl error, w'))
      | (Inr u, w') \<Rightarrow> (Inr (), w'))"

section \<open>Ledger helpers (sheets.ts)\<close>

definition SHEET_NAME :: string where
  "SHEET_NAME = ''synced_events''"

text \<open>\<^verbatim>\<open>row[i] ?? ""\<close>: the API leaves trailing empty cells out of a row.\<close>

definition cell :: "string list \<Rightarrow> nat \<Rightarrow> string" where
  "cell row i = (if i < length row then row ! i else [])"

definition parseRow :: "string list \<Rightarrow> nat \<Rightarrow> SyncedEventRecord" where
  "parseRow row index =
     \<lparr> rowNumber = int index + 2,
       primary_calendar = cell row 0, primary_event_id = cell row 1,
       secondary_calendar = cell row 2, secondary_event_id = cell row 3,
       event_summary = cell row 4, event_start = cell row 5, event_end = cell row 6,
       event_signature = cell row 7, created_at = cell row 8, last_updated = cell row 9,
       last_checked = cell row 10 \<rparr>"

text \<open>\<^verbatim>\<open>rows.slice(1).map(...).filter(...)\<close>: the records of the rows below the header.\<close>

definition parseRows :: "string list list \<Rightarrow> SyncedEventRecord list" where
  "parseRows rows =
     filter (\<lambda>record. primary_calendar record \<noteq> [])
       (map (\<lambda>(row, index). parseRow row index) (zip (tl rows) [0 ..< length (tl rows)]))"

definition loadSyncedEvents :: "'w Services \<Rightarrow> (SyncedEventRecord list, 'w) call" where
  "loadSyncedEvents sheets w =
     (case values_get sheets w of
        (Inl error, w') \<Rightarrow> (Inl error, w')
      | (Inr values, w') \<Rightarrow>
          (let rows = (case values of None \<Rightarrow> [] | Some rs \<Rightarrow> rs)
           in if length rows \<le> 1 then (Inr [], w')
              else (Inr (parseRows rows), w')))"

text \<open>The fields of a row to append (\<^verbatim>\<open>Omit<SyncedEventRecord, "id" | timestamps>\<close>).\<close>

record PendingSheetInsert =
  ins_primary_calendar :: string
  ins_primary_event_id :: string
  ins_secondary_calendar :: string
  ins_secondary_event_id :: string
  ins_event_summary :: string
  ins_event_start :: string
  ins_event_end :: string
  ins_event_signature :: string

definition insertRow :: "PendingSheetInsert \<Rightarrow> string \<Rightarrow> string list" where
  "insertRow record now =
     [ins_primary_calendar record, ins_primary_event_id record, ins_secondary_calendar record,
      ins_secondary_event_id record, ins_event_summary record, ins_event_start record,
      ins_event_end record, ins_event_signature record, now, now, now]"

definition insertSyncedEvent :: "'w Services \<Rightarrow> PendingSheetInsert \<Rightarrow> (unit, 'w) call" where
  "insertSyncedEvent sheets record w =
     (let now = currentTime sheets w in values_append sheets [insertRow record now] w)"

text \<open>The four fields \<^verbatim>\<open>updateSyncedEvent\<close> rewrites.\<close>

record RowUpdates =
  upd_event_signature :: string
  upd_event_summary :: string
  upd_event_start :: string
  upd_event_end :: string

definition updateSyncedEvent ::
  "'w Services \<Rightarrow> string \<Rightarrow> string \<Rightarrow> RowUpdates \<Rightarrow> (unit, 'w) call" where
  "updateSyncedEvent sheets primaryEventId primaryCalendar updates w =
     (case loadSyncedEvents sheets w of
        (Inl error, w1) \<Rightarrow> (Inl error, w1)
      | (Inr records, w1) \<Rightarrow>
          (case List.find (\<lambda>r. primary_event_id r = primaryEventId \<and>
                               primary_calendar r = primaryCalendar) records of
             None \<Rightarrow> (Inr (), w1)
           | Some record \<Rightarrow>
               (let now = currentTime sheets w1
                in values_update sheets (rowNumber record)
                     [primary_calendar record, primary_event_id record,
                      secondary_calendar record, secondary_event_id record,
                      upd_event_summary updates, upd_event_start updates,
                      upd_event_end updates, upd_event_signature updates,
                      created_at record, now, now] w1)))"

text \<open>\<^verbatim>\<open>sheet?.properties?.sheetId ?? 0\<close> for the sheet titled \<^verbatim>\<open>SHEET_NAME\<close>.\<close>

definition findSheetId :: "(string \<times> int) list \<Rightarrow> int" where
  "findSheetId sheetList =
     (case List.find (\<lambda>s. fst s = SHEET_NAME) sheetList of None \<Rightarrow> 0 | Some s \<Rightarrow> snd s)"

definition deleteSyncedEvent :: "'w Services \<Rightarrow> string \<Rightarrow> string \<Rightarrow> (unit, 'w) call" where
  "deleteSyncedEvent sheets primaryEventId primaryCalendar w =
     (case loadSyncedEvents sheets w of
        (Inl error, w1) \<Rightarrow> (Inl error, w1)
      | (Inr records, w1) \<Rightarrow>
          (case List.find (\<lambda>r. primary_event_id r = primaryEventId \<and>
                               primary_calendar r = primaryCalendar) records of
             None \<Rightarrow> (Inr (), w1)
           | Some record \<Rightarrow>
               (case spreadsheets_get sheets w1 of
                  (Inl error, w2) \<Rightarrow> (Inl error, w2)
                | (Inr sheetList, w2) \<Rightarrow>
                    spreadsheets_batchUpdate sheets
                      [DeleteDimension (findSheetId sheetList) (rowNumber record - 1)
                         (rowNumber record)] w2)))"

text \<open>The row rewrite and the row delete that a direction hands to the batch writer.\<close>

record PendingSheetUpdate =
  pu_rowId :: int
  pu_primary_calendar :: string
  pu_primary_event_id :: string
  pu_secondary_calendar :: string
  pu_secondary_event_id :: string
  pu_event_summary :: string
  pu_event_start :: string
  pu_event_end :: string
  pu_event_signature :: string
  pu_created_at :: string

record PendingSheetDelete =
  pd_rowId :: int

definition updateRow :: "PendingSheetUpdate \<Rightarrow> string \<Rightarrow> string list" where
  "updateRow update now =
     [pu_primary_calendar update, pu_primary_event_id update, pu_secondary_calendar update,
      pu_secondary_event_id update, pu_event_summary update, pu_event_start update,
      pu_event_end update, pu_event_signature update, pu_created_at update, now, now]"

text \<open>
  Modelled from the spec: the batch functions of the ledger writer (\<^verbatim>\<open>getSheetId\<close>,
  \<^verbatim>\<open>batchInsertSyncedEvents\<close>, \<^verbatim>\<open>batchUpdateSyncedEvents\<close>, \<^verbatim>\<open>batchDeleteSyncedEventRows\<close>) are
  imported by the workflow from \<^verbatim>\<open>sheets.js\<close> but are not in the sources at hand. Each is a
  no-op on an empty input and otherwise one request: an append of all rows; a multi-range
  update, each range one row addressed by its row id; a structural delete with one
  \<^verbatim>\<open>deleteDimension\<close> per row, the row ids in descending order.
\<close>

definition getSheetId :: "'w Services \<Rightarrow> (int, 'w) call" where
  "getSheetId sheets w =
     (case spreadsheets_get sheets w of
        (Inl error, w') \<Rightarrow> (Inl error, w')
      | (Inr sheetList, w') \<Rightarrow> (Inr (findSheetId sheetList), w'))"

definition batchInsertSyncedEvents ::
  "'w Services \<Rightarrow> PendingSheetInsert list \<Rightarrow> (unit, 'w) call" where
  "batchInsertSyncedEvents sheets records w =
     (if records = [] then (Inr (), w)
      else (let now = currentTime sheets w
            in values_append sheets (map (\<lambda>record. insertRow record now) records) w))"

definition batchUpdateSyncedEvents ::
  "'w Services \<Rightarrow> PendingSheetUpdate list \<Rightarrow> (unit, 'w) call" where
  "batchUpdateSyncedEvents sheets updates w =
     (if updates = [] then (Inr (), w)
      else (let now = currentTime sheets w
            in values_batchUpdate sheets
                 (map (\<lambda>update. (pu_rowId update, updateRow update now)) updates) w))"

definition sortDescending :: "int list \<Rightarrow> int list" where
  "sortDescending rowIds = rev (sort rowIds)"

definition deleteRequests :: "int \<Rightarrow> int list \<Rightarrow> SheetRequest list" where
  "deleteRequests sheetIdentifier rowIds =
     map (\<lambda>rowId. DeleteDimension sheetIdentifier (rowId - 1) rowId) (sortDescending rowIds)"

definition batchDeleteSyncedEventRows ::
  "'w Services \<Rightarrow> int \<Rightarrow> int list \<Rightarrow> (unit, 'w) call" where
  "batchDeleteSyncedEventRows sheets sheetIdentifier rowIds w =
     (if rowIds = [] then (Inr (), w)
      else spreadsheets_batchUpdate sheets (deleteRequests sheetIdentifier rowIds) w)"

section \<open>The concurrency batcher (sync-core.ts)\<close>

definition CONCURRENCY :: int where
  "CONCURRENCY = 5"

definition BATCH_DELAY_MS :: nat where
  "BATCH_DELAY_MS = 1000"

definition delay :: "'w Services \<Rightarrow> nat \<Rightarrow> 'w \<Rightarrow> 'w" where
  "delay services ms w = setTimeout services ms w"

text \<open>\<^verbatim>\<open>items.slice(start, end)\<close>: a negative index counts from the end of the array.\<close>

definition slice :: "'a list \<Rightarrow> int \<Rightarrow> int \<Rightarrow> 'a list" where
  "slice xs first final =
     (let len = int (length xs);
          k = (if first < 0 then max (len + first) 0 else min first len);
          e = (if final < 0 then max (len + final) 0 else min final len)
      in take (nat (e - k)) (drop (nat k) xs))"

definition settle :: "ApiError + 'r \<Rightarrow> 'r settled" where
  "settle outcome = (case outcome of Inl error \<Rightarrow> Rejected error | Inr v \<Rightarrow> Fulfilled v)"

text \<open>
  \<^verbatim>\<open>Promise.allSettled(batch.map(fn))\<close>: every operation of the batch is started, in the order
  of the batch, and every outcome is kept, fulfilled or rejected, at the position of its
  item. The requests of one batch are in flight together; the model lets them take effect in
  the order in which they were issued.
\<close>

primrec allSettled :: "('a \<Rightarrow> ('r, 'w) call) \<Rightarrow> 'a list \<Rightarrow> 'w \<Rightarrow> 'r settled list \<times> 'w" where
  "allSettled fn [] w = ([], w)"
| "allSettled fn (item # batch) w =
     (let (outcome, w1) = fn item w;
          (outcomes, w2) = allSettled fn batch w1
      in (settle outcome # outcomes, w2))"

text \<open>
  The loop \<^verbatim>\<open>for (let i = 0; i < items.length; i += batchSize)\<close>. Nothing makes it stop when
  \<^verbatim>\<open>batchSize\<close> is not positive: not returning is the value \<open>None\<close>.
\<close>

partial_function (option) processInBatchesLoop ::
  "'w Services \<Rightarrow> 'a list \<Rightarrow> int \<Rightarrow> ('a \<Rightarrow> ('r, 'w) call) \<Rightarrow> int \<Rightarrow> 'r settled list \<Rightarrow> 'w \<Rightarrow>
   ('r settled list \<times> 'w) option" where
  "processInBatchesLoop services items batchSize fn i results w =
     (if i < int (length items) then
        (let w1 = (if i > 0 then delay services BATCH_DELAY_MS w else w);
             batch = slice items i (i + batchSize);
             batchResults = allSettled fn batch w1
         in processInBatchesLoop services items batchSize fn (i + batchSize)
              (results @ fst batchResults) (snd batchResults))
      else Some (results, w))"

definition processInBatches ::
  "'w Services \<Rightarrow> 'a list \<Rightarrow> int \<Rightarrow> ('a \<Rightarrow> ('r, 'w) call) \<Rightarrow> 'w \<Rightarrow>
   ('r settled list \<times> 'w) option" where
  "processInBatches services items batchSize fn w =
     processInBatchesLoop services items batchSize fn 0 [] w"

section \<open>The direction syncer and the orphan detector (sync-core.ts, batched)\<close>

definition getDateString :: "EventDateTime option \<Rightarrow> string" where
  "getDateString dt =
     (case dt of
        None \<Rightarrow> []
      | Some properties \<Rightarrow>
          (case property properties ''dateTime'' of
             Some t \<Rightarrow> t
           | None \<Rightarrow> (case property properties ''date'' of Some d \<Rightarrow> d | None \<Rightarrow> [])))"

record SyncDirectionResult =
  stats :: SyncStats
  pendingInserts :: "PendingSheetInsert list"
  pendingUpdates :: "PendingSheetUpdate list"

record OrphanDetectionResult =
  orphansDeleted :: nat
  orphanErrors :: nat
  pendingDeletes :: "PendingSheetDelete list"

text \<open>The operation run on each event to create.\<close>

definition createItem ::
  "'w Services \<Rightarrow> string \<Rightarrow> string \<Rightarrow> string \<Rightarrow> GoogleCalendarEvent \<Rightarrow>
   (GoogleCalendarEvent \<times> GoogleCalendarEvent, 'w) call" where
  "createItem calClient sourceCalendarId targetCalendarId prefix' event w =
     (let eventBody = buildSyncedEventBody event prefix' sourceCalendarId
      in case createEvent calClient targetCalendarId eventBody w of
           (Inl error, w') \<Rightarrow> (Inl error, w')
         | (Inr createdEvent, w') \<Rightarrow> (Inr (event, createdEvent), w'))"

text \<open>The operation run on each pair to update.\<close>

definition updateItem ::
  "'w Services \<Rightarrow> string \<Rightarrow> string \<Rightarrow> string \<Rightarrow> GoogleCalendarEvent \<times> SyncedEventRecord \<Rightarrow>
   (GoogleCalendarEvent \<times> SyncedEventRecord, 'w) call" where
  "updateItem calClient sourceCalendarId targetCalendarId prefix' item w =
     (let event = fst item; dbRecord = snd item;
          eventBody = buildSyncedEventBody event prefix' sourceCalendarId
      in case updateEvent calClient targetCalendarId (secondary_event_id dbRecord) eventBody w of
           (Inl error, w') \<Rightarrow> (Inl error, w')
         | (Inr u, w') \<Rightarrow> (Inr (event, dbRecord), w'))"

definition newInsert ::
  "string \<Rightarrow> string \<Rightarrow> GoogleCalendarEvent \<Rightarrow> GoogleCalendarEvent \<Rightarrow> PendingSheetInsert" where
  "newInsert sourceCalendarId targetCalendarId event createdEvent =
     \<lparr> ins_primary_calendar = sourceCalendarId,
       ins_primary_event_id = id' event,
       ins_secondary_calendar = targetCalendarId,
       ins_secondary_event_id = id' createdEvent,
       ins_event_summary = orEmpty (summary event),
       ins_event_start = getDateString (start event),
       ins_event_end = getDateString (end' event),
       ins_event_signature = computeSignature event \<rparr>"

definition newUpdate :: "GoogleCalendarEvent \<Rightarrow> SyncedEventRecord \<Rightarrow> PendingSheetUpdate" where
  "newUpdate event dbRecord =
     \<lparr> pu_rowId = rowNumber dbRecord,
       pu_primary_calendar = primary_calendar dbRecord,
       pu_primary_event_id = primary_event_id dbRecord,
       pu_secondary_calendar = secondary_calendar dbRecord,
       pu_secondary_event_id = secondary_event_id dbRecord,
       pu_event_summary = orEmpty (summary event),
       pu_event_start = getDateString (start event),
       pu_event_end = getDateString (end' event),
       pu_event_signature = computeSignature event,
       pu_created_at = created_at dbRecord \<rparr>"

text \<open>The loop over \<^verbatim>\<open>createResults\<close>.\<close>

primrec collectCreates ::
  "(GoogleCalendarEvent \<times> GoogleCalendarEvent) settled list \<Rightarrow> string \<Rightarrow> string \<Rightarrow>
   SyncStats \<times> PendingSheetInsert list \<Rightarrow> SyncStats \<times> PendingSheetInsert list" where
  "collectCreates [] sourceCalendarId targetCalendarId acc = acc"
| "collectCreates (result # rest) sourceCalendarId targetCalendarId acc =
     collectCreates rest sourceCalendarId targetCalendarId
       (case result of
          Fulfilled value \<Rightarrow>
            ((fst acc)\<lparr>created := created (fst acc) + 1\<rparr>,
             snd acc @ [newInsert sourceCalendarId targetCalendarId (fst value) (snd value)])
        | Rejected error \<Rightarrow> ((fst acc)\<lparr>errors := errors (fst acc) + 1\<rparr>, snd acc))"

text \<open>The loop over \<^verbatim>\<open>updateResults\<close>.\<close>

primrec collectUpdates ::
  "(GoogleCalendarEvent \<times> SyncedEventRecord) settled list \<Rightarrow>
   SyncStats \<times> PendingSheetUpdate list \<Rightarrow> SyncStats \<times> PendingSheetUpdate list" where
  "collectUpdates [] acc = acc"
| "collectUpdates (result # rest) acc =
     collectUpdates rest
       (case result of
          Fulfilled value \<Rightarrow>
            ((fst acc)\<lparr>updated := updated (fst acc) + 1\<rparr>,
             snd acc @ [newUpdate (fst value) (snd value)])
        | Rejected error \<Rightarrow> ((fst acc)\<lparr>errors := errors (fst acc) + 1\<rparr>, snd acc))"

definition syncDirection ::
  "'w Services \<Rightarrow> GoogleCalendarEvent list \<Rightarrow> SyncedEventRecord list \<Rightarrow> string \<Rightarrow> string \<Rightarrow>
   string \<Rightarrow> 'w \<Rightarrow> (SyncDirectionResult \<times> 'w) option" where
  "syncDirection calClient sourceEvents syncedRecords sourceCalendarId targetCalendarId prefix' w =
     (let analysis = analyzeEvents sourceEvents syncedRecords sourceCalendarId targetCalendarId;
          stats0 = \<lparr> created = 0, updated = 0, deleted = 0, errors = 0 \<rparr>
      in case processInBatches calClient (toCreate analysis) CONCURRENCY
                (createItem calClient sourceCalendarId targetCalendarId prefix') w of
           None \<Rightarrow> None
         | Some (createResults, w1) \<Rightarrow>
             (let (stats1, inserts) =
                    collectCreates createResults sourceCalendarId targetCalendarId (stats0, [])
              in case processInBatches calClient (toUpdate analysis) CONCURRENCY
                        (updateItem calClient sourceCalendarId targetCalendarId prefix') w1 of
                   None \<Rightarrow> None
                 | Some (updateResults, w2) \<Rightarrow>
                     (let (stats2, updates) = collectUpdates updateResults (stats1, [])
                      in Some (\<lparr> stats = stats2, pendingInserts = inserts,
                                  pendingUpdates = updates \<rparr>, w2))))"

definition isOrphan ::
  "GoogleCalendarEvent list \<Rightarrow> GoogleCalendarEvent list \<Rightarrow> string \<Rightarrow> string \<Rightarrow>
   SyncedEventRecord \<Rightarrow> bool" where
  "isOrphan eventsA eventsB calendarAId calendarBId record =
     (let calAEventIds = set (map id' eventsA);
          calBEventIds = set (map id' eventsB)
      in if primary_calendar record = calendarAId \<and> primary_event_id record \<notin> calAEventIds
         then True
         else if primary_calendar record = calendarBId \<and> primary_event_id record \<notin> calBEventIds
         then True
         else False)"

text \<open>The operation run on each orphan: delete the secondary event.\<close>

definition deleteItem :: "'w Services \<Rightarrow> SyncedEventRecord \<Rightarrow> (SyncedEventRecord, 'w) call" where
  "deleteItem calClient record w =
     (case deleteEvent calClient (secondary_calendar record) (secondary_event_id record) w of
        (Inl error, w') \<Rightarrow> (Inl error, w')
      | (Inr u, w') \<Rightarrow> (Inr record, w'))"

text \<open>The loop over \<^verbatim>\<open>deleteResults\<close>.\<close>

primrec collectDeletes ::
  "SyncedEventRecord settled list \<Rightarrow> OrphanDetectionResult \<Rightarrow> OrphanDetectionResult" where
  "collectDeletes [] acc = acc"
| "collectDeletes (result # rest) acc =
     collectDeletes rest
       (case result of
          Fulfilled record \<Rightarrow>
            acc\<lparr> pendingDeletes := pendingDeletes acc @ [\<lparr> pd_rowId = rowNumber record \<rparr>],
                 orphansDeleted := orphansDeleted acc + 1 \<rparr>
        | Rejected error \<Rightarrow> acc\<lparr> orphanErrors := orphanErrors acc + 1 \<rparr>)"

definition detectAndDeleteOrphans ::
  "'w Services \<Rightarrow> GoogleCalendarEvent list \<Rightarrow> GoogleCalendarEvent list \<Rightarrow>
   SyncedEventRecord list \<Rightarrow> string \<Rightarrow> string \<Rightarrow> 'w \<Rightarrow> (OrphanDetectionResult \<times> 'w) option" where
  "detectAndDeleteOrphans calClient eventsA eventsB syncedRecords calendarAId calendarBId w =
     (let orphans = filter (isOrphan eventsA eventsB calendarAId calendarBId) syncedRecords
      in case processInBatches calClient orphans CONCURRENCY (deleteItem calClient) w of
           None \<Rightarrow> None
         | Some (deleteResults, w1) \<Rightarrow>
             Some (collectDeletes deleteResults
                     \<lparr> orphansDeleted = 0, orphanErrors = 0, pendingDeletes = [] \<rparr>, w1))"

section \<open>The workflow (sync-core.ts, batched)\<close>

text \<open>The configuration read from the environment; the tokens only select the clients.\<close>

record Config =
  calendarAId :: string
  calendarBId :: string
  calendarAPrefix :: string
  calendarBPrefix :: string
  maxEvents :: nat
  daysAhead :: nat
  telegramBotToken :: string
  telegramChatId :: string

record DeletionStats =
  ds_deleted :: nat
  ds_errors :: nat

record SyncOutput =
  aToBStats :: SyncStats
  bToAStats :: SyncStats
  deletionStats :: DeletionStats
  eventsA :: nat
  eventsB :: nat
  sheetRecords :: nat

text \<open>\<^verbatim>\<open>SolidActions.runStep(fn, { name })\<close> runs the step; the name is a label.\<close>

definition runStep :: "string \<Rightarrow> 'step \<Rightarrow> 'step" where
  "runStep name step = step"

definition fetchCalendarEvents ::
  "'w Services \<Rightarrow> string \<Rightarrow> nat \<Rightarrow> nat \<Rightarrow> (GoogleCalendarEvent list, 'w) call" where
  "fetchCalendarEvents client calendarId maxEvents' daysAhead' w =
     fetchEvents client calendarId maxEvents' daysAhead' w"

definition loadSheetRecords :: "'w Services \<Rightarrow> (SyncedEventRecord list, 'w) call" where
  "loadSheetRecords sheets w = loadSyncedEvents sheets w"

text \<open>\<^verbatim>\<open>sendTelegramError\<close> never throws.\<close>

definition sendTelegramError :: "'w Services \<Rightarrow> Notification \<Rightarrow> 'w \<Rightarrow> 'w" where
  "sendTelegramError services message w = telegram_send services message w"

text \<open>The steps \<^verbatim>\<open>batch-write-a-to-b\<close> and \<^verbatim>\<open>batch-write-b-to-a\<close>.\<close>

definition batchWrite :: "'w Services \<Rightarrow> SyncDirectionResult \<Rightarrow> (unit, 'w) call" where
  "batchWrite sheets result w =
     (case batchInsertSyncedEvents sheets (pendingInserts result) w of
        (Inl error, w1) \<Rightarrow> (Inl error, w1)
      | (Inr u, w1) \<Rightarrow> batchUpdateSyncedEvents sheets (pendingUpdates result) w1)"

text \<open>The step \<^verbatim>\<open>batch-delete-orphan-rows\<close>.\<close>

definition batchDeleteOrphanRows :: "'w Services \<Rightarrow> OrphanDetectionResult \<Rightarrow> (unit, 'w) call" where
  "batchDeleteOrphanRows sheets orphanResult w =
     (case getSheetId sheets w of
        (Inl error, w1) \<Rightarrow> (Inl error, w1)
      | (Inr sheetIdentifier, w1) \<Rightarrow>
          batchDeleteSyncedEventRows sheets sheetIdentifier
            (map pd_rowId (pendingDeletes orphanResult)) w1)"

definition fulfilledOr :: "'a \<Rightarrow> ApiError + 'a \<Rightarrow> 'a" where
  "fulfilledOr fallback outcome = (case outcome of Inl error \<Rightarrow> fallback | Inr v \<Rightarrow> v)"

text \<open>
  The \<^verbatim>\<open>try\<close> block of the workflow. \<open>None\<close>: a batch loop does not return; \<open>Inl\<close>: a step
  threw; \<open>Inr\<close>: the output.
\<close>

definition syncGoogleCalendarsBody ::
  "'w Services \<Rightarrow> Config \<Rightarrow> 'w \<Rightarrow> ((ApiError + SyncOutput) \<times> 'w) option" where
  "syncGoogleCalendarsBody services config w =
     (let (fetchAResult, w1) =
            runStep ''fetch-calendar-a-events''
              (fetchCalendarEvents services (calendarAId config) (maxEvents config)
                 (daysAhead config)) w;
          (fetchBResult, w2) =
            runStep ''fetch-calendar-b-events''
              (fetchCalendarEvents services (calendarBId config) (maxEvents config)
                 (daysAhead config)) w1;
          eventsA' = fulfilledOr [] fetchAResult;
          eventsB' = fulfilledOr [] fetchBResult
      in case runStep ''load-synced-records'' (loadSheetRecords services) w2 of
        (Inl error, w3) \<Rightarrow> Some (Inl error, w3)
      | (Inr syncedRecords, w3) \<Rightarrow>
      (case runStep ''sync-a-to-b''
              (syncDirection services eventsA' syncedRecords (calendarAId config)
                 (calendarBId config) (calendarAPrefix config)) w3 of
        None \<Rightarrow> None
      | Some (aToBResult, w4) \<Rightarrow>
      (case runStep ''batch-write-a-to-b'' (batchWrite services aToBResult) w4 of
        (Inl error, w5) \<Rightarrow> Some (Inl error, w5)
      | (Inr u5, w5) \<Rightarrow>
      (case runStep ''sync-b-to-a''
              (syncDirection services eventsB' syncedRecords (calendarBId config)
                 (calendarAId config) (calendarBPrefix config)) w5 of
        None \<Rightarrow> None
      | Some (bToAResult, w6) \<Rightarrow>
      (case runStep ''batch-write-b-to-a'' (batchWrite services bToAResult) w6 of
        (Inl error, w7) \<Rightarrow> Some (Inl error, w7)
      | (Inr u7, w7) \<Rightarrow>
      (case runStep ''detect-and-delete-orphans''
              (detectAndDeleteOrphans services eventsA' eventsB' syncedRecords
                 (calendarAId config) (calendarBId config)) w7 of
        None \<Rightarrow> None
      | Some (orphanResult, w8) \<Rightarrow>
      (case runStep ''batch-delete-orphan-rows'' (batchDeleteOrphanRows services orphanResult) w8 of
        (Inl error, w9) \<Rightarrow> Some (Inl error, w9)
      | (Inr u9, w9) \<Rightarrow>
          (let output =
                 \<lparr> aToBStats = stats aToBResult,
                   bToAStats = stats bToAResult,
                   deletionStats = \<lparr> ds_deleted = orphansDeleted orphanResult,
                                     ds_errors = orphanErrors orphanResult \<rparr>,
                   eventsA = length eventsA',
                   eventsB = length eventsB',
                   sheetRecords = length syncedRecords \<rparr>;
               totalErrors = errors (stats aToBResult) + errors (stats bToAResult) +
                             orphanErrors orphanResult;
               w10 = (if totalErrors > 0 \<and> telegramBotToken config \<noteq> [] \<and>
                         telegramChatId config \<noteq> []
                      then runStep ''notify-errors-summary''
                             (sendTelegramError services
                                (CompletedWithErrors (stats aToBResult) (stats bToAResult)
                                   (orphansDeleted orphanResult) (orphanErrors orphanResult))) w9
                      else w9)
           in Some (Inr output, w10)))))))))"

text \<open>The workflow: the \<^verbatim>\<open>catch\<close> clause notifies, if it can, and throws again.\<close>

definition syncGoogleCalendarsWorkflow ::
  "'w Services \<Rightarrow> Config \<Rightarrow> 'w \<Rightarrow> ((ApiError + SyncOutput) \<times> 'w) option" where
  "syncGoogleCalendarsWorkflow services config w =
     (case syncGoogleCalendarsBody services config w of
        None \<Rightarrow> None
      | Some (Inr output, w') \<Rightarrow> Some (Inr output, w')
      | Some (Inl error, w') \<Rightarrow>
          (let w'' = (if telegramBotToken config \<noteq> [] \<and> telegramChatId config \<noteq> []
                      then runStep ''notify-error''
                             (sendTelegramError services (SyncFailed error)) w'
                      else w')
           in Some (Inl error, w'')))"

section \<open>The workflow that writes the ledger row by row (google-calendar-sync/src/sync-core.ts)\<close>

text \<open>
  The second copy of \<^verbatim>\<open>sync-core.ts\<close> in the repository: every create, update and orphan
  writes its own ledger row at once, and the ledger is read again before the second
  direction and before the orphan detection. Its functions carry the suffix \<open>_perItem\<close>.
\<close>

primrec createLoop_perItem ::
  "'w Services \<Rightarrow> GoogleCalendarEvent list \<Rightarrow> string \<Rightarrow> string \<Rightarrow> string \<Rightarrow> SyncStats \<Rightarrow> 'w \<Rightarrow>
   SyncStats \<times> 'w" where
  "createLoop_perItem services [] sourceCalendarId targetCalendarId prefix' stats' w = (stats', w)"
| "createLoop_perItem services (event # rest) sourceCalendarId targetCalendarId prefix' stats' w =
     (case createEvent services targetCalendarId
             (buildSyncedEventBody event prefix' sourceCalendarId) w of
        (Inl apiError, w1) \<Rightarrow>
          createLoop_perItem services rest sourceCalendarId targetCalendarId prefix'
            (stats'\<lparr>errors := errors stats' + 1\<rparr>) w1
      | (Inr createdEvent, w1) \<Rightarrow>
          (case insertSyncedEvent services
                  (newInsert sourceCalendarId targetCalendarId event createdEvent) w1 of
             (Inl sheetError, w2) \<Rightarrow>
               createLoop_perItem services rest sourceCalendarId targetCalendarId prefix'
                 (stats'\<lparr>errors := errors stats' + 1\<rparr>) w2
           | (Inr u, w2) \<Rightarrow>
               createLoop_perItem services rest sourceCalendarId targetCalendarId prefix'
                 (stats'\<lparr>created := created stats' + 1\<rparr>) w2))"

primrec updateLoop_perItem ::
  "'w Services \<Rightarrow> (GoogleCalendarEvent \<times> SyncedEventRecord) list \<Rightarrow> string \<Rightarrow> string \<Rightarrow> string \<Rightarrow>
   SyncStats \<Rightarrow> 'w \<Rightarrow> SyncStats \<times> 'w" where
  "updateLoop_perItem services [] sourceCalendarId targetCalendarId prefix' stats' w = (stats', w)"
| "updateLoop_perItem services (item # rest) sourceCalendarId targetCalendarId prefix' stats' w =
     (let event = fst item; dbRecord = snd item
      in case updateEvent services targetCalendarId (secondary_event_id dbRecord)
                (buildSyncedEventBody event prefix' sourceCalendarId) w of
           (Inl apiError, w1) \<Rightarrow>
             updateLoop_perItem services rest sourceCalendarId targetCalendarId prefix'
               (stats'\<lparr>errors := errors stats' + 1\<rparr>) w1
         | (Inr u1, w1) \<Rightarrow>
             (case updateSyncedEvent services (id' event) sourceCalendarId
                     \<lparr> upd_event_signature = computeSignature event,
                       upd_event_summary = orEmpty (summary event),
                       upd_event_start = getDateString (start event),
                       upd_event_end = getDateString (end' event) \<rparr> w1 of
                (Inl sheetError, w2) \<Rightarrow>
                  updateLoop_perItem services rest sourceCalendarId targetCalendarId prefix'
                    (stats'\<lparr>errors := errors stats' + 1\<rparr>) w2
              | (Inr u2, w2) \<Rightarrow>
                  updateLoop_perItem services rest sourceCalendarId targetCalendarId prefix'
                    (stats'\<lparr>updated := updated stats' + 1\<rparr>) w2))"

definition syncDirection_perItem ::
  "'w Services \<Rightarrow> GoogleCalendarEvent list \<Rightarrow> SyncedEventRecord list \<Rightarrow> string \<Rightarrow> string \<Rightarrow>
   string \<Rightarrow> 'w \<Rightarrow> (SyncStats \<times> SyncAnalysis) \<times> 'w" where
  "syncDirection_perItem services sourceEvents syncedRecords sourceCalendarId targetCalendarId
     prefix' w =
     (let analysis = analyzeEvents sourceEvents syncedRecords sourceCalendarId targetCalendarId;
          stats0 = \<lparr> created = 0, updated = 0, deleted = 0, errors = 0 \<rparr>;
          (stats1, w1) = createLoop_perItem services (toCreate analysis) sourceCalendarId
                           targetCalendarId prefix' stats0 w;
          (stats2, w2) = updateLoop_perItem services (toUpdate analysis) sourceCalendarId
                           targetCalendarId prefix' stats1 w1
      in ((stats2, analysis), w2))"

primrec orphanLoop_perItem ::
  "'w Services \<Rightarrow> SyncedEventRecord list \<Rightarrow> GoogleCalendarEvent list \<Rightarrow>
   GoogleCalendarEvent list \<Rightarrow> string \<Rightarrow> string \<Rightarrow> DeletionStats \<Rightarrow> 'w \<Rightarrow> DeletionStats \<times> 'w" where
  "orphanLoop_perItem services [] eventsA' eventsB' calendarAId' calendarBId' acc w = (acc, w)"
| "orphanLoop_perItem services (record # rest) eventsA' eventsB' calendarAId' calendarBId' acc w =
     (if isOrphan eventsA' eventsB' calendarAId' calendarBId' record then
        (case deleteEvent services (secondary_calendar record) (secondary_event_id record) w of
           (Inl error, w1) \<Rightarrow>
             orphanLoop_perItem services rest eventsA' eventsB' calendarAId' calendarBId'
               (acc\<lparr>ds_errors := ds_errors acc + 1\<rparr>) w1
         | (Inr u1, w1) \<Rightarrow>
             (case deleteSyncedEvent services (primary_event_id record)
                     (primary_calendar record) w1 of
                (Inl error, w2) \<Rightarrow>
                  orphanLoop_perItem services rest eventsA' eventsB' calendarAId' calendarBId'
                    (acc\<lparr>ds_errors := ds_errors acc + 1\<rparr>) w2
              | (Inr u2, w2) \<Rightarrow>
                  orphanLoop_perItem services rest eventsA' eventsB' calendarAId' calendarBId'
                    (acc\<lparr>ds_deleted := ds_deleted acc + 1\<rparr>) w2))
      else orphanLoop_perItem services rest eventsA' eventsB' calendarAId' calendarBId' acc w)"

definition detectAndDeleteOrphans_perItem ::
  "'w Services \<Rightarrow> GoogleCalendarEvent list \<Rightarrow> GoogleCalendarEvent list \<Rightarrow>
   SyncedEventRecord list \<Rightarrow> string \<Rightarrow> string \<Rightarrow> 'w \<Rightarrow> DeletionStats \<times> 'w" where
  "detectAndDeleteOrphans_perItem services eventsA' eventsB' syncedRecords calendarAId'
     calendarBId' w =
     orphanLoop_perItem services syncedRecords eventsA' eventsB' calendarAId' calendarBId'
       \<lparr> ds_deleted = 0, ds_errors = 0 \<rparr> w"

definition syncGoogleCalendarsBody_perItem ::
  "'w Services \<Rightarrow> Config \<Rightarrow> 'w \<Rightarrow> (ApiError + SyncOutput) \<times> 'w" where
  "syncGoogleCalendarsBody_perItem services config w =
     (let (fetchAResult, w1) =
            runStep ''fetch-calendar-a-events''
              (fetchCalendarEvents services (calendarAId config) (maxEvents config)
                 (daysAhead config)) w;
          (fetchBResult, w2) =
            runStep ''fetch-calendar-b-events''
              (fetchCalendarEvents services (calendarBId config) (maxEvents config)
                 (daysAhead config)) w1;
          eventsA' = fulfilledOr [] fetchAResult;
          eventsB' = fulfilledOr [] fetchBResult
      in case runStep ''load-synced-records'' (loadSheetRecords services) w2 of
        (Inl error, w3) \<Rightarrow> (Inl error, w3)
      | (Inr syncedRecords, w3) \<Rightarrow>
      (let ((aToBStats', analysisA), w4) =
             runStep ''sync-a-to-b''
               (syncDirection_perItem services eventsA' syncedRecords (calendarAId config)
                  (calendarBId config) (calendarAPrefix config)) w3
       in case runStep ''reload-synced-records'' (loadSheetRecords services) w4 of
        (Inl error, w5) \<Rightarrow> (Inl error, w5)
      | (Inr updatedRecords, w5) \<Rightarrow>
      (let ((bToAStats', analysisB), w6) =
             runStep ''sync-b-to-a''
               (syncDirection_perItem services eventsB' updatedRecords (calendarBId config)
                  (calendarAId config) (calendarBPrefix config)) w5
       in case runStep ''reload-synced-records-for-orphans'' (loadSheetRecords services) w6 of
        (Inl error, w7) \<Rightarrow> (Inl error, w7)
      | (Inr finalRecords, w7) \<Rightarrow>
      (let (deletionStats', w8) =
             runStep ''detect-and-delete-orphans''
               (detectAndDeleteOrphans_perItem services eventsA' eventsB' finalRecords
                  (calendarAId config) (calendarBId config)) w7
       in (Inr \<lparr> aToBStats = aToBStats',
                 bToAStats = bToAStats',
                 deletionStats = deletionStats',
                 eventsA = length eventsA',
                 eventsB = length eventsB',
                 sheetRecords = length finalRecords \<rparr>, w8)))))"

definition syncGoogleCalendarsWorkflow_perItem ::
  "'w Services \<Rightarrow> Config \<Rightarrow> 'w \<Rightarrow> (ApiError + SyncOutput) \<times> 'w" where
  "syncGoogleCalendarsWorkflow_perItem services config w =
     (case syncGoogleCalendarsBody_perItem services config w of
        (Inr output, w') \<Rightarrow> (Inr output, w')
      | (Inl error, w') \<Rightarrow>
          (let w'' = (if telegramBotToken config \<noteq> [] \<and> telegramChatId config \<noteq> []
                      then runStep ''notify-error''
                             (sendTelegramError services (SyncFailed error)) w'
                      else w')
           in (Inl error, w'')))"

section \<open>A model of the external services\<close>

text \<open>
  Modelled from the spec: the Calendar API (list, create, update, delete of events) and the
  Ledger Store API (read, append, update, delete of rows) are external collaborators. In this
  model a calendar is a list of events; a created event gets an id from a counter and the
  fields of the request body; an update replaces the fields of the event with the given id; a
  delete removes it and leaves a tombstone, so that a second delete is answered 410 and the
  delete of an event that never existed 404. The sheet is a list of rows, the header first;
  row \<open>n\<close> is the \<open>n\<close>-th of the list; a structural request is applied as a whole or not at
  all. Every request is written to a journal. A request fails without effect when the next
  entry of the fault script says so: with arbitrary scripts every pattern of failures is
  covered.
\<close>

datatype Call =
    ListEvents string
  | InsertEvent string EventBody
  | UpdateEvent string string EventBody
  | DeleteEvent string string
  | GetValues
  | AppendValues "string list list"
  | UpdateValues int "string list"
  | BatchUpdateValues "(int \<times> string list) list"
  | GetSpreadsheet
  | BatchUpdateSpreadsheet "SheetRequest list"
  | Timeout nat
  | SendTelegram Notification

record World =
  calendars :: "string \<Rightarrow> GoogleCalendarEvent list option"
  tombstones :: "(string \<times> string) list"
  sheet :: "string list list"
  sheetIdentifier :: int
  faults :: "bool list"
  journal :: "Call list"
  issued :: nat
  clock :: string

definition nextFault :: "World \<Rightarrow> bool" where
  "nextFault w = (case faults w of [] \<Rightarrow> False | f # fs \<Rightarrow> f)"

definition request :: "Call \<Rightarrow> World \<Rightarrow> World" where
  "request c w = w\<lparr> journal := journal w @ [c], faults := tl (faults w) \<rparr>"

definition unavailable :: ApiError where
  "unavailable = ApiError (Some 503) ''unavailable''"

definition notFound :: ApiError where
  "notFound = ApiError (Some 404) ''not found''"

definition gone :: ApiError where
  "gone = ApiError (Some 410) ''gone''"

definition badRequest :: ApiError where
  "badRequest = ApiError (Some 400) ''bad request''"

definition eventOfBody :: "string \<Rightarrow> EventBody \<Rightarrow> GoogleCalendarEvent" where
  "eventOfBody eventId body =
     \<lparr> id' = eventId, summary = Some (body_summary body), start = body_start body,
       end' = body_end body, location = body_location body,
       description = Some (body_description body), attendees = None, hangoutLink = None,
       transparency = Some (body_transparency body), status = Some ''confirmed'',
       recurringEventId = None \<rparr>"

definition generatedId :: "nat \<Rightarrow> string" where
  "generatedId n = ''generated'' @ replicate n (CHR ''x'')"

definition sim_events_list ::
  "string \<Rightarrow> nat \<Rightarrow> nat \<Rightarrow> (GoogleCalendarEvent list option, World) call" where
  "sim_events_list calendarId maxResults days w =
     (let w1 = request (ListEvents calendarId) w
      in if nextFault w then (Inl unavailable, w1)
         else case calendars w calendarId of
                None \<Rightarrow> (Inl notFound, w1)
              | Some evs \<Rightarrow> (Inr (Some (take maxResults evs)), w1))"

definition sim_events_insert :: "string \<Rightarrow> EventBody \<Rightarrow> (GoogleCalendarEvent, World) call" where
  "sim_events_insert calendarId body w =
     (let w1 = request (InsertEvent calendarId body) w
      in if nextFault w then (Inl unavailable, w1)
         else case calendars w calendarId of
                None \<Rightarrow> (Inl notFound, w1)
              | Some evs \<Rightarrow>
                  (let event = eventOfBody (generatedId (issued w)) body
                   in (Inr event,
                       w1\<lparr> calendars := (calendars w)(calendarId \<mapsto> evs @ [event]),
                           issued := issued w + 1 \<rparr>)))"

definition sim_events_update ::
  "string \<Rightarrow> string \<Rightarrow> EventBody \<Rightarrow> (GoogleCalendarEvent, World) call" where
  "sim_events_update calendarId eventId body w =
     (let w1 = request (UpdateEvent calendarId eventId body) w
      in if nextFault w then (Inl unavailable, w1)
         else case calendars w calendarId of
                None \<Rightarrow> (Inl notFound, w1)
              | Some evs \<Rightarrow>
                  if eventId \<in> set (map id' evs)
                  then (Inr (eventOfBody eventId body),
                        w1\<lparr> calendars := (calendars w)(calendarId \<mapsto>
                               map (\<lambda>e. if id' e = eventId then eventOfBody eventId body else e)
                                 evs) \<rparr>)
                  else (Inl notFound, w1))"

definition sim_events_delete :: "string \<Rightarrow> string \<Rightarrow> (unit, World) call" where
  "sim_events_delete calendarId eventId w =
     (let w1 = request (DeleteEvent calendarId eventId) w
      in if nextFault w then (Inl unavailable, w1)
         else case calendars w calendarId of
                None \<Rightarrow> (Inl notFound, w1)
              | Some evs \<Rightarrow>
                  if eventId \<in> set (map id' evs)
                  then (Inr (),
                        w1\<lparr> calendars := (calendars w)(calendarId \<mapsto>
                               filter (\<lambda>e. id' e \<noteq> eventId) evs),
                            tombstones := tombstones w @ [(calendarId, eventId)] \<rparr>)
                  else if (calendarId, eventId) \<in> set (tombstones w) then (Inl gone, w1)
                  else (Inl notFound, w1))"

definition sim_values_get :: "(string list list option, World) call" where
  "sim_values_get w =
     (let w1 = request GetValues w
      in if nextFault w then (Inl unavailable, w1)
         else (Inr (if sheet w = [] then None else Some (sheet w)), w1))"

definition sim_values_append :: "string list list \<Rightarrow> (unit, World) call" where
  "sim_values_append rows w =
     (let w1 = request (AppendValues rows) w
      in if nextFault w then (Inl unavailable, w1)
         else (Inr (), w1\<lparr> sheet := sheet w @ rows \<rparr>))"

text \<open>Writing row \<open>n\<close> (1-based); the grid grows when the row is beyond its end.\<close>

definition writeRow :: "int \<Rightarrow> string list \<Rightarrow> string list list \<Rightarrow> string list list" where
  "writeRow rowId row rows =
     (if nat rowId \<le> length rows then rows[nat rowId - 1 := row]
      else rows @ replicate (nat rowId - 1 - length rows) [] @ [row])"

primrec writeRows :: "(int \<times> string list) list \<Rightarrow> string list list \<Rightarrow> string list list" where
  "writeRows [] rows = rows"
| "writeRows (d # ds) rows = writeRows ds (writeRow (fst d) (snd d) rows)"

definition sim_values_update :: "int \<Rightarrow> string list \<Rightarrow> (unit, World) call" where
  "sim_values_update rowId row w =
     (let w1 = request (UpdateValues rowId row) w
      in if nextFault w then (Inl unavailable, w1)
         else if rowId < 1 then (Inl badRequest, w1)
         else (Inr (), w1\<lparr> sheet := writeRow rowId row (sheet w) \<rparr>))"

definition sim_values_batchUpdate :: "(int \<times> string list) list \<Rightarrow> (unit, World) call" where
  "sim_values_batchUpdate data w =
     (let w1 = request (BatchUpdateValues data) w
      in if nextFault w then (Inl unavailable, w1)
         else if list_ex (\<lambda>d. fst d < 1) data then (Inl badRequest, w1)
         else (Inr (), w1\<lparr> sheet := writeRows data (sheet w) \<rparr>))"

definition sim_spreadsheets_get :: "((string \<times> int) list, World) call" where
  "sim_spreadsheets_get w =
     (let w1 = request GetSpreadsheet w
      in if nextFault w then (Inl unavailable, w1)
         else (Inr [(SHEET_NAME, sheetIdentifier w)], w1))"

text \<open>The requests of one structural update, applied one after the other.\<close>

primrec applyRequests ::
  "int \<Rightarrow> SheetRequest list \<Rightarrow> string list list \<Rightarrow> string list list option" where
  "applyRequests ident [] rows = Some rows"
| "applyRequests ident (r # rs) rows =
     (case r of DeleteDimension sid from' to' \<Rightarrow>
        if sid = ident \<and> 0 \<le> from' \<and> from' < to' \<and> to' \<le> int (length rows)
        then applyRequests ident rs (take (nat from') rows @ drop (nat to') rows)
        else None)"

definition sim_spreadsheets_batchUpdate :: "SheetRequest list \<Rightarrow> (unit, World) call" where
  "sim_spreadsheets_batchUpdate requests w =
     (let w1 = request (BatchUpdateSpreadsheet requests) w
      in if nextFault w then (Inl unavailable, w1)
         else case applyRequests (sheetIdentifier w) requests (sheet w) of
                None \<Rightarrow> (Inl badRequest, w1)
              | Some rows \<Rightarrow> (Inr (), w1\<lparr> sheet := rows \<rparr>))"

definition simulated :: "World Services" where
  "simulated =
     \<lparr> events_list = sim_events_list,
       events_insert = sim_events_insert,
       events_update = sim_events_update,
       events_delete = sim_events_delete,
       values_get = sim_values_get,
       values_append = sim_values_append,
       values_update = sim_values_update,
       values_batchUpdate = sim_values_batchUpdate,
       spreadsheets_get = sim_spreadsheets_get,
       spreadsheets_batchUpdate = sim_spreadsheets_batchUpdate,
       currentTime = clock,
       setTimeout = (\<lambda>ms w. w\<lparr> journal := journal w @ [Timeout ms] \<rparr>),
       telegram_send = (\<lambda>message w. w\<lparr> journal := journal w @ [SendTelegram message] \<rparr>) \<rparr>"

section \<open>The batcher in the words of the specification\<close>

text \<open>The partition of the items into consecutive chunks of at most \<open>n\<close>.\<close>

function chunksOf :: "nat \<Rightarrow> 'a list \<Rightarrow> 'a list list" where
  "chunksOf n xs = (if xs = [] \<or> n = 0 then [] else take n xs # chunksOf n (drop n xs))"
  by auto
termination
  by (relation "measure (\<lambda>(n, xs). length xs)") auto

declare chunksOf.simps [simp del]

text \<open>Chunk after chunk: the pacing delay before every chunk but the first, then all the
  operations of the chunk, every outcome kept.\<close>

primrec runChunks ::
  "'w Services \<Rightarrow> ('a \<Rightarrow> ('r, 'w) call) \<Rightarrow> 'a list list \<Rightarrow> bool \<Rightarrow> 'w \<Rightarrow> 'r settled list \<times> 'w" where
  "runChunks services fn [] first w = ([], w)"
| "runChunks services fn (chunk # rest) first w =
     (let w1 = (if first then w else delay services BATCH_DELAY_MS w);
          (outcomes, w2) = allSettled fn chunk w1;
          (later, w3) = runChunks services fn rest False w2
      in (outcomes @ later, w3))"

text \<open>A result is the outcome of the operation on its item, run in some state of the world.\<close>

definition outcomeOf :: "('a \<Rightarrow> ('r, 'w) call) \<Rightarrow> 'a \<Rightarrow> 'r settled \<Rightarrow> bool" where
  "outcomeOf fn item result = (\<exists>w. result = settle (fst (fn item w)))"

section \<open>Sample worlds\<close>

definition HEADERS :: "string list" where
  "HEADERS = [''primary_calendar'', ''primary_event_id'', ''secondary_calendar'',
     ''secondary_event_id'', ''event_summary'', ''event_start'', ''event_end'',
     ''event_signature'', ''created_at'', ''last_updated'', ''last_checked'']"

text \<open>Calendar A holds the stand-up, calendar B is empty, the ledger has its header only.\<close>

definition freshWorld :: World where
  "freshWorld =
     \<lparr> calendars = (\<lambda>c. None)(''A'' \<mapsto> [standup], ''B'' \<mapsto> []),
       tombstones = [], sheet = [HEADERS], sheetIdentifier = 7, faults = [], journal = [],
       issued = 0, clock = ''2026-03-01T00:00:00.000Z'' \<rparr>"

definition sampleConfig :: Config where
  "sampleConfig =
     \<lparr> calendarAId = ''A'', calendarBId = ''B'', calendarAPrefix = ''[A]'',
       calendarBPrefix = ''[B]'', maxEvents = 2500, daysAhead = 180,
       telegramBotToken = [], telegramChatId = [] \<rparr>"

section \<open>Reading settled results\<close>

primrec isRejected :: "'r settled \<Rightarrow> bool" where
  "isRejected (Fulfilled v) = False"
| "isRejected (Rejected error) = True"

primrec fulfilledValues :: "'r settled list \<Rightarrow> 'r list" where
  "fulfilledValues [] = []"
| "fulfilledValues (result # rest) =
     (case result of Fulfilled v \<Rightarrow> v # fulfilledValues rest | Rejected error \<Rightarrow> fulfilledValues rest)"

text \<open>The number of rejected results.\<close>

definition failures :: "'r settled list \<Rightarrow> nat" where
  "failures results = length (filter isRejected results)"

text \<open>A delete of event \<open>e1\<close>, \<open>e2\<close>, ... from calendar A of the model.\<close>

definition deleteFromA :: "string \<Rightarrow> (unit, World) call" where
  "deleteFromA eventId = deleteEvent simulated ''A'' eventId"

primrec isTimeout :: "Call \<Rightarrow> bool" where
  "isTimeout (ListEvents c) = False"
| "isTimeout (InsertEvent c b) = False"
| "isTimeout (UpdateEvent c e b) = False"
| "isTimeout (DeleteEvent c e) = False"
| "isTimeout GetValues = False"
| "isTimeout (AppendValues rows) = False"
| "isTimeout (UpdateValues n row) = False"
| "isTimeout (BatchUpdateValues d) = False"
| "isTimeout GetSpreadsheet = False"
| "isTimeout (BatchUpdateSpreadsheet rs) = False"
| "isTimeout (Timeout ms) = True"
| "isTimeout (SendTelegram m) = False"

text \<open>The requests in a journal, the timer left out.\<close>

definition requestsIn :: "Call list \<Rightarrow> Call list" where
  "requestsIn calls = filter (\<lambda>c. \<not> isTimeout c) calls"

text \<open>A ledger row for the stand-up of calendar A whose copy on calendar B is \<open>copy1\<close>; in
  \<open>staleWorld\<close> the signature of the row is out of date and the copy does not exist.\<close>

definition staleWorld :: World where
  "staleWorld =
     freshWorld\<lparr> sheet := [HEADERS, [''A'', ''e1'', ''B'', ''copy1'', ''Standup'',
       ''2026-03-02T09:00:00Z'', ''2026-03-02T09:30:00Z'', ''old'', ''t0'', ''t0'', ''t0'']] \<rparr>"

text \<open>The delete request of the secondary event of a ledger record.\<close>

definition deleteCall :: "SyncedEventRecord \<Rightarrow> Call" where
  "deleteCall record = DeleteEvent (secondary_calendar record) (secondary_event_id record)"

text \<open>In \<open>orphanWorld\<close> the stand-up is gone from calendar A; its copy is on calendar B and its
  row in the ledger.\<close>

definition copyOfStandup :: GoogleCalendarEvent where
  "copyOfStandup = eventOfBody ''copy1'' (buildSyncedEventBody standup ''[A]'' ''A'')"

definition orphanWorld :: World where
  "orphanWorld =
     staleWorld\<lparr> calendars := (\<lambda>c. None)(''A'' \<mapsto> [], ''B'' \<mapsto> [copyOfStandup]) \<rparr>"

text \<open>A second ledger row, for an event \<open>e2\<close> of calendar A whose copy is \<open>copy2\<close>; in
  \<open>flakyWorld\<close> neither event is on calendar A and the second request fails.\<close>

definition secondRow :: SyncedEventRecord where
  "secondRow = (trackedRow ''A'' ''e2'' ''old'')\<lparr> rowNumber := 3, secondary_event_id := ''copy2'' \<rparr>"

definition flakyWorld :: World where
  "flakyWorld = orphanWorld\<lparr> faults := [False, True] \<rparr>"

text \<open>The number of reads of the ledger in the journal.\<close>

definition ledgerReads :: "World \<Rightarrow> nat" where
  "ledgerReads w = count_list (journal w) GetValues"

text \<open>In \<open>outageWorld\<close> the stand-up is on calendar A, its copy on calendar B and its row in
  the ledger, and the first request (the fetch of calendar A) fails.\<close>

definition outageWorld :: World where
  "outageWorld =
     staleWorld\<lparr> calendars := (\<lambda>c. None)(''A'' \<mapsto> [standup], ''B'' \<mapsto> [copyOfStandup]),
                  faults := [True] \<rparr>"

text \<open>In \<open>blackoutWorld\<close> the ledger of \<open>outageWorld\<close> has a second row, for an event \<open>e2\<close>
  of calendar A whose copy \<open>copy2\<close> has never been on calendar B.\<close>

definition blackoutWorld :: World where
  "blackoutWorld =
     outageWorld\<lparr> sheet := sheet outageWorld @
       [[''A'', ''e2'', ''B'', ''copy2'', ''Standup'', ''2026-03-02T09:00:00Z'',
         ''2026-03-02T09:30:00Z'', ''old'', ''t0'', ''t0'', ''t0'']] \<rparr>"

text \<open>In \<open>idleWorld\<close> both calendars are empty and the ledger has its header only.\<close>

definition idleWorld :: World where
  "idleWorld = freshWorld\<lparr> calendars := (\<lambda>c. None)(''A'' \<mapsto> [], ''B'' \<mapsto> []) \<rparr>"

section \<open>Vocabulary of the idempotence proof\<close>












text \<open>The stats of a direction that did nothing.\<close>

definition noStats :: SyncStats where
  "noStats = \<lparr> created = 0, updated = 0, deleted = 0, errors = 0 \<rparr>"







section \<open>Event analysis\<close>

lemma analyzeLoop_eq:
  "analyzeLoop es m src tgt acc =
     \<lparr> toCreate = toCreate acc @
          filter (\<lambda>e. passesFilter tgt e \<and> m (recordKey (id' e) src) = None) es,
       toUpdate = toUpdate acc @ List.map_filter (updatePair m src tgt) es,
       unchanged = unchanged acc +
          length (filter (\<lambda>e. passesFilter tgt e \<and>
             (\<exists>r. m (recordKey (id' e) src) = Some r \<and> event_signature r = computeSignature e)) es),
       skippedDuplicate = skippedDuplicate acc +
          length (filter (\<lambda>e. id' e \<noteq> [] \<and>
             (isSyncedCopy e \<or> isTargetCalendarInAttendees e tgt)) es) \<rparr>"
proof (induction es arbitrary: acc)
  case Nil
  show ?case by (simp add: List.map_filter_simps)
next
  case (Cons e es)
  show ?case
    by (simp add: Cons.IH analyzeEvent_def passesFilter_def updatePair_def
        List.map_filter_simps split: option.splits)
qed

lemma includes_iff: "includesStr s sub \<longleftrightarrow> (\<exists>p q. s = p @ sub @ q)"
proof (induction s)
  case Nil
  then show ?case by auto
next
  case (Cons c cs)
  show ?case
  proof
    assume "includesStr (c # cs) sub"
    then consider "prefix sub (c # cs)" | "includesStr cs sub" by auto
    then show "\<exists>p q. c # cs = p @ sub @ q"
    proof cases
      case 1
      then obtain q where "c # cs = sub @ q" by (auto simp: prefix_def)
      then have "c # cs = [] @ sub @ q" by simp
      then show ?thesis by blast
    next
      case 2
      then obtain p q where "cs = p @ sub @ q" using Cons.IH by auto
      then have "c # cs = (c # p) @ sub @ q" by simp
      then show ?thesis by blast
    qed
  next
    assume "\<exists>p q. c # cs = p @ sub @ q"
    then obtain p q where pq: "c # cs = p @ sub @ q" by auto
    show "includesStr (c # cs) sub"
    proof (cases p)
      case Nil
      with pq have "prefix sub (c # cs)" by (auto simp: prefix_def)
      then show ?thesis by simp
    next
      case (Cons a p')
      with pq have "cs = p' @ sub @ q" by simp
      then have "includesStr cs sub" using Cons.IH by blast
      then show ?thesis by simp
    qed
  qed
qed

lemma split_at_first:
  assumes "xs @ x # ys = xs' @ x # ys'" "x \<notin> set xs" "x \<notin> set xs'"
  shows "xs = xs' \<and> ys = ys'"
proof -
  have "takeWhile (\<lambda>y. y \<noteq> x) (xs @ x # ys) = xs"
    using assms(2) by (auto simp: takeWhile_tail)
  moreover have "takeWhile (\<lambda>y. y \<noteq> x) (xs' @ x # ys') = xs'"
    using assms(3) by (auto simp: takeWhile_tail)
  ultimately have "xs = xs'" using assms(1) by simp
  then show ?thesis using assms(1) by simp
qed

lemma recordKey_inject:
  assumes "CHR '':'' \<notin> set c" "CHR '':'' \<notin> set d"
  shows "recordKey a c = recordKey b d \<longleftrightarrow> a = b \<and> c = d"
proof
  assume "recordKey a c = recordKey b d"
  then have "rev (recordKey a c) = rev (recordKey b d)" by simp
  then have "rev c @ CHR '':'' # rev a = rev d @ CHR '':'' # rev b"
    by (simp add: recordKey_def)
  then have "rev c = rev d \<and> rev a = rev b"
    using assms by (intro split_at_first) auto
  then show "a = b \<and> c = d" by simp
qed simp

lemma buildRecordMap_lookup:
  "buildRecordMap recs m k =
     (case lastMatch (\<lambda>r. recordKey (primary_event_id r) (primary_calendar r) = k) recs of
        Some r \<Rightarrow> Some r | None \<Rightarrow> m k)"
  by (induction recs arbitrary: m) (auto split: option.splits)

lemma lastMatch_cong:
  "(\<And>x. x \<in> set xs \<Longrightarrow> P x = Q x) \<Longrightarrow> lastMatch P xs = lastMatch Q xs"
  by (induction xs) (auto split: option.splits)

lemma recordMap_is_ledgerLookup:
  assumes "CHR '':'' \<notin> set src" "\<forall>r\<in>set recs. CHR '':'' \<notin> set (primary_calendar r)"
  shows "buildRecordMap recs Map.empty (recordKey eid src) = ledgerLookup recs src eid"
proof -
  have "lastMatch (\<lambda>r. recordKey (primary_event_id r) (primary_calendar r) = recordKey eid src) recs
        = lastMatch (\<lambda>r. primary_calendar r = src \<and> primary_event_id r = eid) recs"
    using assms by (intro lastMatch_cong) (auto simp: recordKey_inject)
  then show ?thesis
    by (simp add: buildRecordMap_lookup ledgerLookup_def split: option.splits)
qed


lemma lastMatch_None: "lastMatch P xs = None \<longleftrightarrow> (\<forall>x\<in>set xs. \<not> P x)"
  by (induction xs) (auto split: option.splits if_splits)

lemma analyzeEvents_eq:
  "analyzeEvents es recs src tgt =
     \<lparr> toCreate =
          filter (\<lambda>e. passesFilter tgt e \<and>
            buildRecordMap recs Map.empty (recordKey (id' e) src) = None) es,
       toUpdate = List.map_filter (updatePair (buildRecordMap recs Map.empty) src tgt) es,
       unchanged =
          length (filter (\<lambda>e. passesFilter tgt e \<and>
             (\<exists>r. buildRecordMap recs Map.empty (recordKey (id' e) src) = Some r \<and>
                  event_signature r = computeSignature e)) es),
       skippedDuplicate =
          length (filter (\<lambda>e. id' e \<noteq> [] \<and>
             (isSyncedCopy e \<or> isTargetCalendarInAttendees e tgt)) es) \<rparr>"
  unfolding analyzeEvents_def by (subst analyzeLoop_eq) simp

lemma updatePair_Some:
  "updatePair m src tgt e = Some p \<longleftrightarrow>
     (\<exists>r. p = (e, r) \<and> passesFilter tgt e \<and> m (recordKey (id' e) src) = Some r \<and>
          event_signature r \<noteq> computeSignature e)"
  unfolding updatePair_def by (cases "m (recordKey (id' e) src)") auto

lemma set_map_filter: "set (List.map_filter f xs) = {y. \<exists>x\<in>set xs. f x = Some y}"
  by (induction xs) (auto simp: List.map_filter_simps split: option.splits)

lemma toUpdate_pairs:
  "(e, r) \<in> set (List.map_filter (updatePair m src tgt) es) \<longleftrightarrow>
     e \<in> set es \<and> passesFilter tgt e \<and> m (recordKey (id' e) src) = Some r \<and>
     event_signature r \<noteq> computeSignature e"
  by (auto simp: set_map_filter updatePair_Some)

lemma toUpdate_events:
  "e \<in> fst ` set (List.map_filter (updatePair m src tgt) es) \<longleftrightarrow>
     e \<in> set es \<and> passesFilter tgt e \<and>
     (\<exists>r. m (recordKey (id' e) src) = Some r \<and> event_signature r \<noteq> computeSignature e)"
proof -
  have "e \<in> fst ` set (List.map_filter (updatePair m src tgt) es) \<longleftrightarrow>
        (\<exists>r. (e, r) \<in> set (List.map_filter (updatePair m src tgt) es))"
    by force
  then show ?thesis unfolding toUpdate_pairs by blast
qed

lemma length_three_way:
  "length (filter (\<lambda>e. passesFilter tgt e \<and> m (recordKey (id' e) src) = None) es) +
   length (List.map_filter (updatePair m src tgt) es) +
   length (filter (\<lambda>e. passesFilter tgt e \<and>
      (\<exists>r. m (recordKey (id' e) src) = Some r \<and> event_signature r = computeSignature e)) es)
   = length (filter (passesFilter tgt) es)"
proof (induction es)
  case Nil
  show ?case by (simp add: List.map_filter_simps)
next
  case (Cons e es)
  show ?case
  proof (cases "passesFilter tgt e")
    case False
    then show ?thesis using Cons.IH by (simp add: List.map_filter_simps updatePair_def)
  next
    case True
    then show ?thesis using Cons.IH
      by (cases "m (recordKey (id' e) src)") (simp_all add: List.map_filter_simps updatePair_def)
  qed
qed

text \<open>
  Claim C2 (amended). For every input of \<^verbatim>\<open>analyzeEvents\<close>, an event whose description contains
  the sync tag, or whose attendees contain the target calendar, is in neither \<open>toCreate\<close> nor
  \<open>toUpdate\<close>; \<open>skippedDuplicate\<close> counts exactly those of them whose id is not empty (an
  event with an empty id is dropped before the filter and is counted nowhere).
\<close>

theorem duplicate_filter_skips:
  fixes events recs src tgt
  defines "a \<equiv> analyzeEvents events recs src tgt"
  shows "(\<forall>e. isSyncedCopy e \<or> isTargetCalendarInAttendees e tgt \<longrightarrow>
            e \<notin> set (toCreate a) \<and> e \<notin> fst ` set (toUpdate a)) \<and>
         skippedDuplicate a =
           length (filter (\<lambda>e. id' e \<noteq> [] \<and>
              (isSyncedCopy e \<or> isTargetCalendarInAttendees e tgt)) events)"
proof -
  have "e \<notin> set (toCreate a) \<and> e \<notin> fst ` set (toUpdate a)"
    if "isSyncedCopy e \<or> isTargetCalendarInAttendees e tgt" for e
  proof -
    from that have "\<not> passesFilter tgt e" by (auto simp: passesFilter_def)
    then show ?thesis by (simp add: a_def analyzeEvents_eq toUpdate_events)
  qed
  moreover have "skippedDuplicate a =
           length (filter (\<lambda>e. id' e \<noteq> [] \<and>
              (isSyncedCopy e \<or> isTargetCalendarInAttendees e tgt)) events)"
    by (simp add: a_def analyzeEvents_eq)
  ultimately show ?thesis by blast
qed

text \<open>
  Where no calendar id (the source's or a ledger row's primary calendar) contains a colon,
  the key string stands for the pair: an event that passes the duplicate filter is classified
  by the ledger lookup on (source calendar, event id), the last such row counting, and the
  three outcomes exclude each other.
\<close>

lemma classification_by_lookup:
  fixes events recs src tgt
  defines "a \<equiv> analyzeEvents events recs src tgt"
  assumes "CHR '':'' \<notin> set src" "\<forall>r\<in>set recs. CHR '':'' \<notin> set (primary_calendar r)"
  shows "(\<forall>e\<in>set events. passesFilter tgt e \<longrightarrow>
           (case ledgerLookup recs src (id' e) of
              None \<Rightarrow> e \<in> set (toCreate a) \<and> e \<notin> fst ` set (toUpdate a)
            | Some r \<Rightarrow>
                if event_signature r = computeSignature e
                then e \<notin> set (toCreate a) \<and> e \<notin> fst ` set (toUpdate a)
                else (e, r) \<in> set (toUpdate a) \<and> e \<notin> set (toCreate a))) \<and>
         unchanged a =
           length (filter (\<lambda>e. passesFilter tgt e \<and>
              (\<exists>r. ledgerLookup recs src (id' e) = Some r \<and>
                   event_signature r = computeSignature e)) events) \<and>
         length (toCreate a) + length (toUpdate a) + unchanged a =
           length (filter (passesFilter tgt) events)"
proof -
  let ?m = "buildRecordMap recs Map.empty"
  have m: "?m (recordKey eid src) = ledgerLookup recs src eid" for eid
    using assms(2,3) by (rule recordMap_is_ledgerLookup)
  have tc: "toCreate a = filter (\<lambda>e. passesFilter tgt e \<and> ?m (recordKey (id' e) src) = None) events"
    and tu: "toUpdate a = List.map_filter (updatePair ?m src tgt) events"
    and un: "unchanged a = length (filter (\<lambda>e. passesFilter tgt e \<and>
             (\<exists>r. ?m (recordKey (id' e) src) = Some r \<and>
                  event_signature r = computeSignature e)) events)"
    by (simp_all add: a_def analyzeEvents_eq)
  have "length (toCreate a) + length (toUpdate a) + unchanged a =
           length (filter (passesFilter tgt) events)"
    unfolding tc tu un by (rule length_three_way)
  moreover have "unchanged a =
           length (filter (\<lambda>e. passesFilter tgt e \<and>
              (\<exists>r. ledgerLookup recs src (id' e) = Some r \<and>
                   event_signature r = computeSignature e)) events)"
    unfolding un m ..
  moreover have "case ledgerLookup recs src (id' e) of
              None \<Rightarrow> e \<in> set (toCreate a) \<and> e \<notin> fst ` set (toUpdate a)
            | Some r \<Rightarrow>
                if event_signature r = computeSignature e
                then e \<notin> set (toCreate a) \<and> e \<notin> fst ` set (toUpdate a)
                else (e, r) \<in> set (toUpdate a) \<and> e \<notin> set (toCreate a)"
    if "e \<in> set events" "passesFilter tgt e" for e
    using that unfolding tc tu
    by (cases "ledgerLookup recs src (id' e)") (simp_all add: toUpdate_events toUpdate_pairs m)
  ultimately show ?thesis by blast
qed

theorem duplicate_filter_skips_witness:
  "isSyncedCopy (standup\<lparr>description := Some (SYNC_TAG @ '' [A] (A)'')\<rparr>) \<and>
   toCreate (analyzeEvents [standup\<lparr>description := Some (SYNC_TAG @ '' [A] (A)'')\<rparr>] [] ''B'' ''A'') = [] \<and>
   skippedDuplicate (analyzeEvents [standup\<lparr>description := Some (SYNC_TAG @ '' [A] (A)'')\<rparr>] [] ''B'' ''A'') = 1"
proof -
  let ?copy = "standup\<lparr>description := Some (SYNC_TAG @ '' [A] (A)'')\<rparr>"
  have c: "isSyncedCopy ?copy"
    by (simp add: isSyncedCopy_def orEmpty_def SYNC_TAG_def standup_def)
  have i: "id' ?copy \<noteq> []" by (simp add: standup_def)
  from duplicate_filter_skips [where events = "[?copy]" and recs = "[]" and src = "''B''" and tgt = "''A''"] c i
  have "?copy \<notin> set (toCreate (analyzeEvents [?copy] [] ''B'' ''A''))"
    and "skippedDuplicate (analyzeEvents [?copy] [] ''B'' ''A'') = 1"
    by simp_all
  moreover have "set (toCreate (analyzeEvents [?copy] [] ''B'' ''A'')) \<subseteq> {?copy}"
    by (simp add: analyzeEvents_eq)
  ultimately show ?thesis using c by (cases "toCreate (analyzeEvents [?copy] [] ''B'' ''A'')") auto
qed

text \<open>The claim as written fails at an event that carries the tag and has an empty id:
  the loop leaves it out of everything, \<open>skippedDuplicate\<close> included.\<close>

theorem duplicate_filter_counterexample:
  "isSyncedCopy (standup\<lparr>id' := [], description := Some SYNC_TAG\<rparr>) \<and>
   skippedDuplicate
     (analyzeEvents [standup\<lparr>id' := [], description := Some SYNC_TAG\<rparr>] [] ''A'' ''B'') = 0"
  by (simp add: isSyncedCopy_def orEmpty_def SYNC_TAG_def standup_def analyzeEvents_def
      analyzeEvent_def)

text \<open>
  Claim C3. An event with a non-empty id that passes the duplicate filter is classified by the
  ledger lookup on the pair (source calendar, event id): no record puts it in \<open>toCreate\<close>.
  The code looks the pair up through the string \<^verbatim>\<open>`${id}:${calendar}`\<close>, which does not
  determine the pair: for the source calendar \<open>c:d\<close> the ledger has no record of the event
  \<open>e1\<close>, yet the record of the event \<open>e1:c\<close> of calendar \<open>d\<close> has the same key string, and
  the code puts \<open>e1\<close> in \<open>toUpdate\<close>, paired with that record, and not in \<open>toCreate\<close>.
\<close>

theorem classification_colon_collision:
  "passesFilter ''B'' standup \<and>
   ledgerLookup [trackedRow ''d'' ''e1:c'' ''old''] ''c:d'' (id' standup) = None \<and>
   toCreate (analyzeEvents [standup] [trackedRow ''d'' ''e1:c'' ''old''] ''c:d'' ''B'') = [] \<and>
   toUpdate (analyzeEvents [standup] [trackedRow ''d'' ''e1:c'' ''old''] ''c:d'' ''B'') =
     [(standup, trackedRow ''d'' ''e1:c'' ''old'')]"
  by (simp add: passesFilter_def isSyncedCopy_def isTargetCalendarInAttendees_def orEmpty_def
      SYNC_TAG_def standup_def ledgerLookup_def trackedRow_def analyzeEvents_def
      analyzeEvent_def recordKey_def computeSignature_def)



section \<open>The concurrency batcher\<close>


lemma concat_chunksOf: "0 < n \<Longrightarrow> concat (chunksOf n xs) = xs"
proof (induction n xs rule: chunksOf.induct)
  case (1 n xs)
  show ?case
  proof (cases "xs = []")
    case True
    then show ?thesis by (subst chunksOf.simps) simp
  next
    case False
    with 1 have "concat (chunksOf n (drop n xs)) = drop n xs" by simp
    with False 1(2) show ?thesis by (subst chunksOf.simps) simp
  qed
qed

lemma chunksOf_sizes: "c \<in> set (chunksOf n xs) \<Longrightarrow> c \<noteq> [] \<and> length c \<le> n"
proof (induction n xs rule: chunksOf.induct)
  case (1 n xs)
  show ?case
  proof (cases "xs = [] \<or> n = 0")
    case True
    with 1(2) show ?thesis by (subst (asm) chunksOf.simps) simp
  next
    case False
    from 1(2) have "c = take n xs \<or> c \<in> set (chunksOf n (drop n xs))"
      using False by (subst (asm) chunksOf.simps) auto
    then show ?thesis
    proof
      assume "c = take n xs"
      with False show ?thesis by auto
    next
      assume "c \<in> set (chunksOf n (drop n xs))"
      with 1(1) False show ?thesis by blast
    qed
  qed
qed


lemma allSettled_outcomes: "list_all2 (outcomeOf fn) xs (fst (allSettled fn xs w))"
proof (induction xs arbitrary: w)
  case Nil
  show ?case by simp
next
  case (Cons x xs)
  obtain o1 w1 where f: "fn x w = (o1, w1)" by (cases "fn x w")
  obtain os w2 where a: "allSettled fn xs w1 = (os, w2)" by (cases "allSettled fn xs w1")
  have "outcomeOf fn x (settle o1)"
    unfolding outcomeOf_def using f by (metis fst_conv)
  moreover have "list_all2 (outcomeOf fn) xs os" using Cons [of w1] a by simp
  ultimately show ?case using f a by simp
qed

lemma allSettled_length: "length (fst (allSettled fn xs w)) = length xs"
  using allSettled_outcomes [of fn xs w] by (simp add: list_all2_lengthD)

lemma runChunks_outcomes:
  "list_all2 (outcomeOf fn) (concat cs) (fst (runChunks services fn cs first w))"
proof (induction cs arbitrary: first w)
  case Nil
  show ?case by simp
next
  case (Cons c cs)
  let ?w1 = "if first then w else delay services BATCH_DELAY_MS w"
  obtain os w2 where a: "allSettled fn c ?w1 = (os, w2)" by (cases "allSettled fn c ?w1")
  obtain ls w3 where r: "runChunks services fn cs False w2 = (ls, w3)"
    by (cases "runChunks services fn cs False w2")
  have "list_all2 (outcomeOf fn) c os" using allSettled_outcomes [of fn c ?w1] a by simp
  moreover have "list_all2 (outcomeOf fn) (concat cs) ls" using Cons [of False w2] r by simp
  ultimately have "list_all2 (outcomeOf fn) (c @ concat cs) (os @ ls)"
    by (rule list_all2_appendI)
  then show ?case using a r by (simp add: Let_def)
qed

lemma slice_chunk:
  assumes "0 \<le> i" "i < int (length xs)" "1 \<le> b"
  shows "slice xs i (i + b) = take (nat b) (drop (nat i) xs)"
proof -
  have "take (nat (min (i + b) (int (length xs)) - i)) (drop (nat i) xs)
        = take (nat b) (drop (nat i) xs)"
  proof (cases "i + b \<le> int (length xs)")
    case True
    then show ?thesis by (simp add: min_def)
  next
    case False
    then have "nat (int (length xs) - i) \<le> nat b" by simp
    moreover have "length (drop (nat i) xs) = nat (int (length xs) - i)" using assms by simp
    ultimately show ?thesis using False by (simp add: min_def)
  qed
  then show ?thesis using assms by (simp add: slice_def Let_def min_def)
qed

lemma processInBatchesLoop_chunks:
  assumes "1 \<le> b" "0 \<le> i"
  shows "processInBatchesLoop services items b fn i results w =
         Some (results @ fst (runChunks services fn (chunksOf (nat b) (drop (nat i) items)) (i = 0) w),
               snd (runChunks services fn (chunksOf (nat b) (drop (nat i) items)) (i = 0) w))"
  using assms(2)
proof (induction "length items - nat i" arbitrary: i results w rule: less_induct)
  case less
  show ?case
  proof (cases "i < int (length items)")
    case False
    then have "drop (nat i) items = []" using less.prems by simp
    then have "chunksOf (nat b) (drop (nat i) items) = []" by (subst chunksOf.simps) simp
    then show ?thesis using False by (subst processInBatchesLoop.simps) simp
  next
    case True
    let ?w1 = "if 0 < i then delay services BATCH_DELAY_MS w else w"
    let ?c = "take (nat b) (drop (nat i) items)"
    obtain os w2 where a: "allSettled fn ?c ?w1 = (os, w2)" by (cases "allSettled fn ?c ?w1")
    have ne: "drop (nat i) items \<noteq> []" using True less.prems by simp
    have d: "drop (nat (i + b)) items = drop (nat b) (drop (nat i) items)"
      using less.prems assms(1) by (simp add: nat_add_distrib add.commute)
    have ch: "chunksOf (nat b) (drop (nat i) items) =
              ?c # chunksOf (nat b) (drop (nat (i + b)) items)"
      using ne assms(1) by (subst chunksOf.simps) (simp add: d)
    have m: "length items - nat (i + b) < length items - nat i"
      using True less.prems assms(1) by linarith
    have ih: "processInBatchesLoop services items b fn (i + b) (results @ os) w2 =
         Some ((results @ os) @ fst (runChunks services fn (chunksOf (nat b) (drop (nat (i + b)) items)) (i + b = 0) w2),
               snd (runChunks services fn (chunksOf (nat b) (drop (nat (i + b)) items)) (i + b = 0) w2))"
      using less.hyps [OF m] less.prems assms(1) by simp
    have z: "(i + b = 0) = False" using less.prems assms(1) by simp
    have w1: "(if i = 0 then w else delay services BATCH_DELAY_MS w) = ?w1"
      using less.prems by auto
    show ?thesis
      apply (subst processInBatchesLoop.simps)
      apply (simp only: True if_True Let_def slice_chunk [OF less.prems True assms(1)] a fst_conv snd_conv ih z ch runChunks.simps w1)
      apply (simp add: split_beta)
      done
  qed
qed

lemma processInBatchesLoop_diverges:
  assumes "processInBatchesLoop services items b fn i results w = Some y"
  shows "\<not> (b \<le> 0 \<and> i < int (length items))"
  apply (rule processInBatchesLoop.raw_induct
      [where P = "\<lambda>services items b fn i results w y. \<not> (b \<le> 0 \<and> i < int (length items))",
        OF _ assms])
  subgoal premises p for loop services items b fn i results w y
  proof
    assume h: "b \<le> 0 \<and> i < int (length items)"
    with p(2) have "loop services items b fn (i + b)
        (results @ fst (allSettled fn (slice items i (i + b))
            (if 0 < i then delay services BATCH_DELAY_MS w else w)))
        (snd (allSettled fn (slice items i (i + b))
            (if 0 < i then delay services BATCH_DELAY_MS w else w))) = Some y"
      by (simp add: Let_def)
    then have "\<not> (b \<le> 0 \<and> i + b < int (length items))" by (rule p(1))
    with h show False by simp
  qed
  done


lemma processInBatches_eq:
  assumes "1 \<le> batchSize"
  shows "processInBatches services items batchSize fn w =
           Some (runChunks services fn (chunksOf (nat batchSize) items) True w)"
  unfolding processInBatches_def
  using processInBatchesLoop_chunks [OF assms, of 0 services items fn "[]" w] by simp

text \<open>
  Claim C8 (amended). For every item list, every batch size of at least 1 and every per-item
  operation, \<^verbatim>\<open>processInBatches\<close> returns, and what it does is: partition the items into
  consecutive chunks of at most \<open>batchSize\<close> (none empty, together the items in their order);
  run chunk after chunk, all operations of a chunk started together and every outcome kept,
  fulfilled or rejected; wait the fixed pacing delay before every chunk but the first. The
  result list has one entry per item, in the order of the items, each the outcome of the
  operation on its item.
\<close>

theorem processInBatches_chunks:
  assumes "1 \<le> batchSize"
  shows "processInBatches services items batchSize fn w =
           Some (runChunks services fn (chunksOf (nat batchSize) items) True w) \<and>
         concat (chunksOf (nat batchSize) items) = items \<and>
         (\<forall>chunk\<in>set (chunksOf (nat batchSize) items).
            chunk \<noteq> [] \<and> int (length chunk) \<le> batchSize) \<and>
         list_all2 (outcomeOf fn) items
           (fst (runChunks services fn (chunksOf (nat batchSize) items) True w))"
proof -
  have "processInBatches services items batchSize fn w =
           Some (runChunks services fn (chunksOf (nat batchSize) items) True w)"
    using assms by (rule processInBatches_eq)
  moreover have c: "concat (chunksOf (nat batchSize) items) = items"
    using assms by (intro concat_chunksOf) simp
  moreover have "\<forall>chunk\<in>set (chunksOf (nat batchSize) items).
            chunk \<noteq> [] \<and> int (length chunk) \<le> batchSize"
    using chunksOf_sizes [of _ "nat batchSize" items] assms by fastforce
  moreover have "list_all2 (outcomeOf fn) items
           (fst (runChunks services fn (chunksOf (nat batchSize) items) True w))"
    using runChunks_outcomes [of fn "chunksOf (nat batchSize) items" services True w] c by simp
  ultimately show ?thesis by blast
qed


theorem processInBatches_chunks_witness:
  "(1::int) \<le> 2 \<and>
   chunksOf 2 [''e1'', ''e2'', ''e3''] = [[''e1'', ''e2''], [''e3'']] \<and>
   map_option fst (processInBatches simulated [''e1'', ''e2'', ''e3''] 2 deleteFromA freshWorld) =
     Some [Fulfilled (), Rejected notFound, Rejected notFound] \<and>
   map_option (journal \<circ> snd)
     (processInBatches simulated [''e1'', ''e2'', ''e3''] 2 deleteFromA freshWorld) =
     Some [DeleteEvent ''A'' ''e1'', DeleteEvent ''A'' ''e2'', Timeout 1000,
           DeleteEvent ''A'' ''e3'']"
proof -
  have c: "chunksOf 2 [''e1'', ''e2'', ''e3''] = [[''e1'', ''e2''], [''e3'']]"
    by (simp add: chunksOf.simps)
  have "\<forall>chunk\<in>set (chunksOf 2 [''e1'', ''e2'', ''e3'']).
          chunk \<noteq> [] \<and> int (length chunk) \<le> 2"
    unfolding c by simp
  then show ?thesis
    using processInBatches_chunks [of 2 simulated "[''e1'', ''e2'', ''e3'']" deleteFromA freshWorld]
    by (simp add: c deleteFromA_def deleteEvent_def simulated_def sim_events_delete_def
        request_def nextFault_def freshWorld_def delay_def BATCH_DELAY_MS_def Let_def
        standup_def settle_def notFound_def)
qed

text \<open>The claim as written fails at the batch size 0: the loop index never moves, and the
  call does not return.\<close>

theorem processInBatches_counterexample:
  "processInBatches simulated [''e1''] 0 deleteFromA freshWorld = None"
proof (cases "processInBatches simulated [''e1''] 0 deleteFromA freshWorld")
  case None
  then show ?thesis .
next
  case (Some y)
  then have "\<not> ((0::int) \<le> 0 \<and> (0::int) < int (length [''e1'']))"
    unfolding processInBatches_def by (rule processInBatchesLoop_diverges)
  then show ?thesis by simp
qed

section \<open>The direction syncer\<close>

lemma processInBatches_returns:
  "\<exists>results w'. processInBatches services items CONCURRENCY fn w = Some (results, w') \<and>
     list_all2 (outcomeOf fn) items results"
proof -
  have c: "concat (chunksOf (nat CONCURRENCY) items) = items"
    by (intro concat_chunksOf) (simp add: CONCURRENCY_def)
  let ?r = "runChunks services fn (chunksOf (nat CONCURRENCY) items) True w"
  have "processInBatches services items CONCURRENCY fn w = Some (fst ?r, snd ?r)"
    unfolding processInBatches_def
    using processInBatchesLoop_chunks [of CONCURRENCY 0 services items fn "[]" w]
    by (simp add: CONCURRENCY_def)
  moreover have "list_all2 (outcomeOf fn) items (fst ?r)"
    using runChunks_outcomes [of fn "chunksOf (nat CONCURRENCY) items" services True w] c by simp
  ultimately show ?thesis by blast
qed

lemma length_fulfilled: "length (fulfilledValues results) + failures results = length results"
  by (induction results) (auto simp: failures_def split: settled.splits)

lemma collectCreates_eq:
  "collectCreates results src tgt acc =
     ((fst acc)\<lparr> created := created (fst acc) + length (fulfilledValues results),
                 errors := errors (fst acc) + failures results \<rparr>,
      snd acc @ map (\<lambda>v. newInsert src tgt (fst v) (snd v)) (fulfilledValues results))"
proof (induction results arbitrary: acc)
  case Nil
  show ?case by (simp add: failures_def)
next
  case (Cons r rs)
  show ?case by (cases r) (simp_all add: Cons.IH failures_def)
qed

lemma collectUpdates_eq:
  "collectUpdates results acc =
     ((fst acc)\<lparr> updated := updated (fst acc) + length (fulfilledValues results),
                 errors := errors (fst acc) + failures results \<rparr>,
      snd acc @ map (\<lambda>v. newUpdate (fst v) (snd v)) (fulfilledValues results))"
proof (induction results arbitrary: acc)
  case Nil
  show ?case by (simp add: failures_def)
next
  case (Cons r rs)
  show ?case by (cases r) (simp_all add: Cons.IH failures_def)
qed

lemma collectDeletes_eq:
  "collectDeletes results acc =
     acc\<lparr> orphansDeleted := orphansDeleted acc + length (fulfilledValues results),
          orphanErrors := orphanErrors acc + failures results,
          pendingDeletes := pendingDeletes acc @
             map (\<lambda>r. \<lparr> pd_rowId = rowNumber r \<rparr>) (fulfilledValues results) \<rparr>"
proof (induction results arbitrary: acc)
  case Nil
  show ?case by (simp add: failures_def)
next
  case (Cons r rs)
  show ?case by (cases r) (simp_all add: Cons.IH failures_def)
qed

lemma syncDirection_run:
  fixes services :: "'w Services" and sourceEvents syncedRecords src tgt
  defines "analysis \<equiv> analyzeEvents sourceEvents syncedRecords src tgt"
  shows "\<exists>createResults w1 updateResults w2.
     processInBatches services (toCreate analysis) CONCURRENCY
       (createItem services src tgt pfx) w = Some (createResults, w1) \<and>
     processInBatches services (toUpdate analysis) CONCURRENCY
       (updateItem services src tgt pfx) w1 = Some (updateResults, w2) \<and>
     list_all2 (outcomeOf (createItem services src tgt pfx)) (toCreate analysis) createResults \<and>
     list_all2 (outcomeOf (updateItem services src tgt pfx)) (toUpdate analysis) updateResults \<and>
     syncDirection services sourceEvents syncedRecords src tgt pfx w =
       Some (\<lparr> stats = \<lparr> created = length (fulfilledValues createResults),
                          updated = length (fulfilledValues updateResults),
                          deleted = 0,
                          errors = failures createResults + failures updateResults \<rparr>,
               pendingInserts = map (\<lambda>v. newInsert src tgt (fst v) (snd v))
                                   (fulfilledValues createResults),
               pendingUpdates = map (\<lambda>v. newUpdate (fst v) (snd v))
                                   (fulfilledValues updateResults) \<rparr>, w2)"
proof -
  obtain createResults w1 where
    c: "processInBatches services (toCreate analysis) CONCURRENCY
          (createItem services src tgt pfx) w = Some (createResults, w1)"
    and co: "list_all2 (outcomeOf (createItem services src tgt pfx)) (toCreate analysis) createResults"
    using processInBatches_returns
      [of services "toCreate analysis" "createItem services src tgt pfx" w] by auto
  obtain updateResults w2 where
    u: "processInBatches services (toUpdate analysis) CONCURRENCY
          (updateItem services src tgt pfx) w1 = Some (updateResults, w2)"
    and uo: "list_all2 (outcomeOf (updateItem services src tgt pfx)) (toUpdate analysis) updateResults"
    using processInBatches_returns
      [of services "toUpdate analysis" "updateItem services src tgt pfx" w1] by auto
  have "syncDirection services sourceEvents syncedRecords src tgt pfx w =
       Some (\<lparr> stats = \<lparr> created = length (fulfilledValues createResults),
                          updated = length (fulfilledValues updateResults),
                          deleted = 0,
                          errors = failures createResults + failures updateResults \<rparr>,
               pendingInserts = map (\<lambda>v. newInsert src tgt (fst v) (snd v))
                                   (fulfilledValues createResults),
               pendingUpdates = map (\<lambda>v. newUpdate (fst v) (snd v))
                                   (fulfilledValues updateResults) \<rparr>, w2)"
    unfolding syncDirection_def Let_def analysis_def [symmetric]
    by (simp add: c u collectCreates_eq collectUpdates_eq)
  with c u co uo show ?thesis by blast
qed


text \<open>
  Claim C5 (amended). For every run of the direction syncer, with N events to create of which
  exactly K create calls on the target calendar fail: the result holds exactly N - K pending
  ledger inserts, one for each create that succeeded and in their order; the stats count
  exactly N - K creates; each create has its own outcome, whatever its siblings did. The
  error counter is shared with the updates: it is K plus the number of failed update calls
  (so exactly K when no update fails).
\<close>

theorem create_failures_counted:
  fixes services :: "'w Services" and sourceEvents syncedRecords src tgt
  defines "analysis \<equiv> analyzeEvents sourceEvents syncedRecords src tgt"
  shows "\<exists>createResults w1 updateResults w2 result.
     processInBatches services (toCreate analysis) CONCURRENCY
       (createItem services src tgt pfx) w = Some (createResults, w1) \<and>
     processInBatches services (toUpdate analysis) CONCURRENCY
       (updateItem services src tgt pfx) w1 = Some (updateResults, w2) \<and>
     syncDirection services sourceEvents syncedRecords src tgt pfx w = Some (result, w2) \<and>
     list_all2 (outcomeOf (createItem services src tgt pfx)) (toCreate analysis) createResults \<and>
     length (pendingInserts result) = length (toCreate analysis) - failures createResults \<and>
     created (stats result) = length (toCreate analysis) - failures createResults \<and>
     errors (stats result) = failures createResults + failures updateResults \<and>
     pendingInserts result =
       map (\<lambda>v. newInsert src tgt (fst v) (snd v)) (fulfilledValues createResults)"
proof -
  from syncDirection_run [of services sourceEvents syncedRecords src tgt pfx w]
  obtain createResults w1 updateResults w2 where
    c: "processInBatches services (toCreate analysis) CONCURRENCY
          (createItem services src tgt pfx) w = Some (createResults, w1)"
    and u: "processInBatches services (toUpdate analysis) CONCURRENCY
          (updateItem services src tgt pfx) w1 = Some (updateResults, w2)"
    and co: "list_all2 (outcomeOf (createItem services src tgt pfx)) (toCreate analysis) createResults"
    and s: "syncDirection services sourceEvents syncedRecords src tgt pfx w =
       Some (\<lparr> stats = \<lparr> created = length (fulfilledValues createResults),
                          updated = length (fulfilledValues updateResults),
                          deleted = 0,
                          errors = failures createResults + failures updateResults \<rparr>,
               pendingInserts = map (\<lambda>v. newInsert src tgt (fst v) (snd v))
                                   (fulfilledValues createResults),
               pendingUpdates = map (\<lambda>v. newUpdate (fst v) (snd v))
                                   (fulfilledValues updateResults) \<rparr>, w2)"
    unfolding analysis_def by blast
  have n: "length (fulfilledValues createResults) =
           length (toCreate analysis) - failures createResults"
    using length_fulfilled [of createResults] list_all2_lengthD [OF co] by simp
  show ?thesis
    apply (rule exI [of _ createResults], rule exI [of _ w1])
    apply (rule exI [of _ updateResults], rule exI [of _ w2])
    apply (rule exI)
    apply (intro conjI)
           apply (rule c)
          apply (rule u)
         apply (rule s)
        apply (rule co)
       apply (simp add: n)
      apply (simp add: n)
     apply simp
    apply simp
    done
qed

lemma loadStale: "fst (loadSyncedEvents simulated staleWorld) = Inr [trackedRow ''A'' ''e1'' ''old'']"
  by (simp add: loadSyncedEvents_def simulated_def sim_values_get_def staleWorld_def freshWorld_def
      nextFault_def request_def Let_def HEADERS_def parseRows_def parseRow_def cell_def trackedRow_def)

text \<open>The claim as written fails where an update fails: no event is to be created (N = 0,
  K = 0), the one update is rejected, and the stats count one error.\<close>

theorem create_failures_counterexample:
  "toCreate (analyzeEvents [standup] [trackedRow ''A'' ''e1'' ''old''] ''A'' ''B'') = [] \<and>
   map_option (errors \<circ> stats \<circ> fst)
     (syncDirection simulated [standup] [trackedRow ''A'' ''e1'' ''old''] ''A'' ''B'' ''[A]''
        staleWorld) = Some 1"
proof -
  have a: "analyzeEvents [standup] [trackedRow ''A'' ''e1'' ''old''] ''A'' ''B'' =
     \<lparr> toCreate = [], toUpdate = [(standup, trackedRow ''A'' ''e1'' ''old'')], unchanged = 0,
       skippedDuplicate = 0 \<rparr>"
    by (simp add: analyzeEvents_def analyzeEvent_def isSyncedCopy_def orEmpty_def SYNC_TAG_def
        isTargetCalendarInAttendees_def standup_def trackedRow_def recordKey_def
        computeSignature_def)
  have c: "chunksOf 5 [(standup, trackedRow ''A'' ''e1'' ''old'')] =
           [[(standup, trackedRow ''A'' ''e1'' ''old'')]]"
    by (simp add: chunksOf.simps)
  have e: "chunksOf 5 ([] :: GoogleCalendarEvent list) = []"
    by (simp add: chunksOf.simps)
  have u: "fst (updateItem simulated ''A'' ''B'' ''[A]'' (standup, trackedRow ''A'' ''e1'' ''old'')
             staleWorld) = Inl notFound"
    by (simp add: updateItem_def updateEvent_def simulated_def sim_events_update_def Let_def
        nextFault_def staleWorld_def freshWorld_def trackedRow_def)
  show ?thesis
    by (simp add: a syncDirection_def processInBatches_eq CONCURRENCY_def c e Let_def u settle_def
        split_beta)
qed


section \<open>The orphan detector\<close>

lemma isOrphan_iff:
  "isOrphan evA evB a b record \<longleftrightarrow>
     (primary_calendar record = a \<and> primary_event_id record \<notin> id' ` set evA) \<or>
     (primary_calendar record = b \<and> primary_event_id record \<notin> id' ` set evB)"
  by (auto simp: isOrphan_def Let_def)

lemma deleteItem_outcome:
  "fst (deleteItem services record w) =
     (case fst (events_delete services (secondary_calendar record) (secondary_event_id record) w) of
        Inr u \<Rightarrow> Inr record
      | Inl error \<Rightarrow> if code error = Some 410 then Inr record else Inl error)"
  by (simp add: deleteItem_def deleteEvent_def split: prod.splits sum.splits)

lemma allSettled_fulfilled:
  assumes "\<And>x w v. fst (fn x w) = Inr v \<Longrightarrow> v = g x"
  shows "fulfilledValues (fst (allSettled fn xs w)) =
         map g (map fst (filter (\<lambda>p. \<not> isRejected (snd p)) (zip xs (fst (allSettled fn xs w)))))"
proof (induction xs arbitrary: w)
  case Nil
  show ?case by simp
next
  case (Cons x xs)
  obtain o1 w1 where f: "fn x w = (o1, w1)" by (cases "fn x w")
  obtain os w2 where a: "allSettled fn xs w1 = (os, w2)" by (cases "allSettled fn xs w1")
  have ih: "fulfilledValues os = map g (map fst (filter (\<lambda>p. \<not> isRejected (snd p)) (zip xs os)))"
    using Cons [of w1] a by simp
  show ?case
  proof (cases o1)
    case (Inl e)
    then show ?thesis using f a ih by (simp add: settle_def)
  next
    case (Inr v)
    then have "v = g x" using assms [of x w v] f by simp
    then show ?thesis using Inr f a ih by (simp add: settle_def)
  qed
qed

lemma fulfilled_of_outcomes:
  assumes "list_all2 (outcomeOf fn) xs rs" "\<And>x w v. fst (fn x w) = Inr v \<Longrightarrow> v = g x"
  shows "fulfilledValues rs = map g (map fst (filter (\<lambda>p. \<not> isRejected (snd p)) (zip xs rs)))"
  using assms(1)
proof (induction rule: list_all2_induct)
  case Nil
  show ?case by simp
next
  case (Cons x xs r rs)
  from Cons(1) obtain w where r: "r = settle (fst (fn x w))" by (auto simp: outcomeOf_def)
  show ?case
  proof (cases "fst (fn x w)")
    case (Inl e)
    then show ?thesis using r Cons(3) by (simp add: settle_def)
  next
    case (Inr v)
    then have "v = g x" by (rule assms(2))
    then show ?thesis using r Inr Cons(3) by (simp add: settle_def)
  qed
qed

lemma deleteItem_value: "fst (deleteItem services record w) = Inr v \<Longrightarrow> v = record"
  by (auto simp: deleteItem_def deleteEvent_def split: prod.splits sum.splits if_splits)

lemma detectAndDeleteOrphans_run:
  fixes services :: "'w Services" and evA evB syncedRecords a b
  defines "orphans \<equiv> filter (isOrphan evA evB a b) syncedRecords"
  shows "\<exists>deleteResults w1.
     processInBatches services orphans CONCURRENCY (deleteItem services) w =
       Some (deleteResults, w1) \<and>
     list_all2 (outcomeOf (deleteItem services)) orphans deleteResults \<and>
     detectAndDeleteOrphans services evA evB syncedRecords a b w =
       Some (\<lparr> orphansDeleted = length (fulfilledValues deleteResults),
               orphanErrors = failures deleteResults,
               pendingDeletes = map (\<lambda>r. \<lparr> pd_rowId = rowNumber r \<rparr>)
                                   (fulfilledValues deleteResults) \<rparr>, w1)"
proof -
  obtain deleteResults w1 where
    d: "processInBatches services orphans CONCURRENCY (deleteItem services) w =
          Some (deleteResults, w1)"
    and o: "list_all2 (outcomeOf (deleteItem services)) orphans deleteResults"
    using processInBatches_returns [of services orphans "deleteItem services" w] by auto
  have "detectAndDeleteOrphans services evA evB syncedRecords a b w =
       Some (\<lparr> orphansDeleted = length (fulfilledValues deleteResults),
               orphanErrors = failures deleteResults,
               pendingDeletes = map (\<lambda>r. \<lparr> pd_rowId = rowNumber r \<rparr>)
                                   (fulfilledValues deleteResults) \<rparr>, w1)"
    unfolding detectAndDeleteOrphans_def Let_def orphans_def [symmetric]
    by (simp add: d collectDeletes_eq)
  with d o show ?thesis by blast
qed

lemma deleteItem_simulated:
  "journal (snd (deleteItem simulated record w)) = journal w @ [deleteCall record] \<and>
   sheet (snd (deleteItem simulated record w)) = sheet w"
  by (simp add: deleteItem_def deleteEvent_def simulated_def sim_events_delete_def Let_def
      request_def deleteCall_def split: option.splits)

lemma allSettled_deletes:
  "journal (snd (allSettled (deleteItem simulated) rs w)) = journal w @ map deleteCall rs \<and>
   sheet (snd (allSettled (deleteItem simulated) rs w)) = sheet w"
proof (induction rs arbitrary: w)
  case Nil
  show ?case by simp
next
  case (Cons r rs)
  obtain o1 w1 where f: "deleteItem simulated r w = (o1, w1)" by (cases "deleteItem simulated r w")
  have "journal w1 = journal w @ [deleteCall r]" "sheet w1 = sheet w"
    using deleteItem_simulated [of r w] f by simp_all
  then show ?case using f Cons [of w1] by (simp add: split_beta)
qed

lemma runChunks_deletes:
  "requestsIn (journal (snd (runChunks simulated (deleteItem simulated) cs first w))) =
     requestsIn (journal w) @ map deleteCall (concat cs) \<and>
   sheet (snd (runChunks simulated (deleteItem simulated) cs first w)) = sheet w"
proof (induction cs arbitrary: first w)
  case Nil
  show ?case by simp
next
  case (Cons c cs)
  let ?w1 = "if first then w else delay simulated BATCH_DELAY_MS w"
  have w1: "requestsIn (journal ?w1) = requestsIn (journal w)" "sheet ?w1 = sheet w"
    by (simp_all add: delay_def simulated_def requestsIn_def)
  let ?w2 = "snd (allSettled (deleteItem simulated) c ?w1)"
  have w2: "requestsIn (journal ?w2) = requestsIn (journal w) @ map deleteCall c"
    "sheet ?w2 = sheet w"
    using allSettled_deletes [of c ?w1] w1
    by (simp_all add: requestsIn_def deleteCall_def)
  show ?case using Cons [of False ?w2] w2 by (simp add: split_beta Let_def)
qed


lemma deleteItem_call:
  "deleteItem services record w =
     (case events_delete services (secondary_calendar record) (secondary_event_id record) w of
        (Inr u, w1) \<Rightarrow> (Inr record, w1)
      | (Inl error, w1) \<Rightarrow> if code error = Some 410 then (Inr record, w1) else (Inl error, w1))"
  by (simp add: deleteItem_def deleteEvent_def split: prod.splits sum.splits)

lemma length_runChunks:
  "length (fst (runChunks services fn cs first w)) = length (concat cs)"
proof (induction cs arbitrary: first w)
  case Nil
  show ?case by simp
next
  case (Cons c cs)
  show ?case by (simp add: split_beta Let_def Cons allSettled_length)
qed

lemma fulfilled_zip:
  assumes "length xs = length rs" "\<And>x w v. fst (fn x w) = Inr v \<Longrightarrow> v = g x"
    "list_all2 (outcomeOf fn) xs rs"
  shows "fulfilledValues rs = map (\<lambda>p. g (fst p)) (filter (\<lambda>p. \<not> isRejected (snd p)) (zip xs rs))"
  using fulfilled_of_outcomes [OF assms(3,2)] by (simp add: comp_def)


lemma detectAndDeleteOrphans_eq:
  fixes services :: "'w Services" and evA evB syncedRecords a b w
  defines "orphans \<equiv> filter (isOrphan evA evB a b) syncedRecords"
  defines "run \<equiv> runChunks services (deleteItem services) (chunksOf (nat CONCURRENCY) orphans) True w"
  defines "removed \<equiv> filter (\<lambda>p. \<not> isRejected (snd p)) (zip orphans (fst run))"
  shows "detectAndDeleteOrphans services evA evB syncedRecords a b w =
       Some (\<lparr> orphansDeleted = length removed,
               orphanErrors = failures (fst run),
               pendingDeletes = map (\<lambda>p. \<lparr> pd_rowId = rowNumber (fst p) \<rparr>) removed \<rparr>,
             snd run)"
    and "length (fst run) = length orphans"
proof -
  have c: "concat (chunksOf (nat CONCURRENCY) orphans) = orphans"
    by (intro concat_chunksOf) (simp add: CONCURRENCY_def)
  show 3: "length (fst run) = length orphans"
    unfolding run_def by (simp add: length_runChunks c)
  have p: "processInBatches services orphans CONCURRENCY (deleteItem services) w = Some run"
    unfolding run_def by (rule processInBatches_eq) (simp add: CONCURRENCY_def)
  have o: "list_all2 (outcomeOf (deleteItem services)) orphans (fst run)"
    unfolding run_def
    using runChunks_outcomes [of "deleteItem services" "chunksOf (nat CONCURRENCY) orphans"
        services True w] c by simp
  have f: "fulfilledValues (fst run) = map (\<lambda>p. fst p) removed"
    unfolding removed_def using 3 [symmetric] _ o by (rule fulfilled_zip) (rule deleteItem_value)
  show "detectAndDeleteOrphans services evA evB syncedRecords a b w =
       Some (\<lparr> orphansDeleted = length removed,
               orphanErrors = failures (fst run),
               pendingDeletes = map (\<lambda>p. \<lparr> pd_rowId = rowNumber (fst p) \<rparr>) removed \<rparr>,
             snd run)"
    unfolding detectAndDeleteOrphans_def Let_def orphans_def [symmetric] p
    by (simp add: split_beta collectDeletes_eq f comp_def)
qed


text \<open>
  Claim C6. A ledger record is an orphan exactly when its primary calendar is one of the two
  configured calendars and the ids fetched from that calendar do not contain its primary
  event id. The detector runs the delete operation on exactly the orphans, in the order of the
  ledger and in chunks of five: its results are the outcomes \<open>fst run\<close> of that run, one for
  each orphan, each obtained in the world that the deletes before it have left. The delete
  operation is one delete request for the secondary event on the secondary calendar; it counts
  as done when the calendar accepts it or answers 410. The pending row deletes are the rows
  of exactly the orphans whose delete, in this run, is done, so no row delete is produced
  before its calendar-side delete; the counters count these and the failures. In the model the
  journal shows one delete request for each orphan and no other request, and the ledger is
  left as it was.
\<close>

theorem orphans_deleted_then_rows:
  fixes services :: "'w Services" and evA evB syncedRecords a b w
  defines "orphans \<equiv> filter (isOrphan evA evB a b) syncedRecords"
  defines "run \<equiv> runChunks services (deleteItem services) (chunksOf (nat CONCURRENCY) orphans) True w"
  defines "removed \<equiv> filter (\<lambda>p. \<not> isRejected (snd p)) (zip orphans (fst run))"
  shows
   "(\<forall>record. isOrphan evA evB a b record \<longleftrightarrow>
       (primary_calendar record = a \<and> primary_event_id record \<notin> id' ` set evA) \<or>
       (primary_calendar record = b \<and> primary_event_id record \<notin> id' ` set evB)) \<and>
    detectAndDeleteOrphans services evA evB syncedRecords a b w =
       Some (\<lparr> orphansDeleted = length removed,
               orphanErrors = failures (fst run),
               pendingDeletes = map (\<lambda>p. \<lparr> pd_rowId = rowNumber (fst p) \<rparr>) removed \<rparr>,
             snd run) \<and>
    length (fst run) = length orphans \<and>
    (\<forall>record w0. deleteItem services record w0 =
       (case events_delete services (secondary_calendar record) (secondary_event_id record) w0 of
          (Inr u, w1) \<Rightarrow> (Inr record, w1)
        | (Inl error, w1) \<Rightarrow>
            if code error = Some 410 then (Inr record, w1) else (Inl error, w1))) \<and>
    (\<forall>world. \<exists>p.
       detectAndDeleteOrphans simulated evA evB syncedRecords a b world = Some p \<and>
       requestsIn (journal (snd p)) = requestsIn (journal world) @ map deleteCall orphans \<and>
       sheet (snd p) = sheet world)"
proof -
  have c: "concat (chunksOf (nat CONCURRENCY) orphans) = orphans"
    by (intro concat_chunksOf) (simp add: CONCURRENCY_def)
  have 1: "\<forall>record. isOrphan evA evB a b record \<longleftrightarrow>
       (primary_calendar record = a \<and> primary_event_id record \<notin> id' ` set evA) \<or>
       (primary_calendar record = b \<and> primary_event_id record \<notin> id' ` set evB)"
    by (simp add: isOrphan_iff)
  have 3: "length (fst run) = length orphans"
    unfolding run_def by (simp add: length_runChunks c)
  have p: "processInBatches services orphans CONCURRENCY (deleteItem services) w = Some run"
    unfolding run_def by (rule processInBatches_eq) (simp add: CONCURRENCY_def)
  have o: "list_all2 (outcomeOf (deleteItem services)) orphans (fst run)"
    unfolding run_def
    using runChunks_outcomes [of "deleteItem services" "chunksOf (nat CONCURRENCY) orphans"
        services True w] c by simp
  have f: "fulfilledValues (fst run) = map (\<lambda>p. fst p) removed"
    unfolding removed_def using 3 [symmetric] _ o by (rule fulfilled_zip) (rule deleteItem_value)
  have 2: "detectAndDeleteOrphans services evA evB syncedRecords a b w =
       Some (\<lparr> orphansDeleted = length removed,
               orphanErrors = failures (fst run),
               pendingDeletes = map (\<lambda>p. \<lparr> pd_rowId = rowNumber (fst p) \<rparr>) removed \<rparr>,
             snd run)"
    unfolding detectAndDeleteOrphans_def Let_def orphans_def [symmetric] p
    by (simp add: split_beta collectDeletes_eq f comp_def)
  have 4: "\<forall>record w0. deleteItem services record w0 =
       (case events_delete services (secondary_calendar record) (secondary_event_id record) w0 of
          (Inr u, w1) \<Rightarrow> (Inr record, w1)
        | (Inl error, w1) \<Rightarrow>
            if code error = Some 410 then (Inr record, w1) else (Inl error, w1))"
    by (simp add: deleteItem_call)
  have 5: "\<exists>p.
       detectAndDeleteOrphans simulated evA evB syncedRecords a b world = Some p \<and>
       requestsIn (journal (snd p)) = requestsIn (journal world) @ map deleteCall orphans \<and>
       sheet (snd p) = sheet world" for world
  proof -
    let ?r = "runChunks simulated (deleteItem simulated) (chunksOf (nat CONCURRENCY) orphans) True world"
    have q: "processInBatches simulated orphans CONCURRENCY (deleteItem simulated) world = Some ?r"
      by (rule processInBatches_eq) (simp add: CONCURRENCY_def)
    have "detectAndDeleteOrphans simulated evA evB syncedRecords a b world =
            Some (collectDeletes (fst ?r)
                    \<lparr> orphansDeleted = 0, orphanErrors = 0, pendingDeletes = [] \<rparr>, snd ?r)"
      unfolding detectAndDeleteOrphans_def Let_def orphans_def [symmetric] q
      by (simp add: split_beta)
    moreover have "requestsIn (journal (snd ?r)) = requestsIn (journal world) @ map deleteCall orphans"
      "sheet (snd ?r) = sheet world"
      using runChunks_deletes [of "chunksOf (nat CONCURRENCY) orphans" True world] c by simp_all
    ultimately show ?thesis by simp
  qed
  from 1 2 3 4 5 show ?thesis by blast
qed

section \<open>The ledger batch writer\<close>

text \<open>
  Claim C10. On a non-empty list of row ids, \<^verbatim>\<open>batchDeleteSyncedEventRows\<close> is one structural
  request (in the model: one entry of the journal) whose \<^verbatim>\<open>deleteDimension\<close> parts take the
  given row ids in descending order; for the row ids 3, 7, 2 the order is 7, 3, 2.
\<close>

theorem batchDelete_descending:
  assumes "rowIds \<noteq> []"
  shows "batchDeleteSyncedEventRows sheets sid rowIds w =
           spreadsheets_batchUpdate sheets
             (map (\<lambda>rowId. DeleteDimension sid (rowId - 1) rowId) (sortDescending rowIds)) w \<and>
         sorted_wrt (\<lambda>x y. x \<ge> y) (sortDescending rowIds) \<and>
         mset (sortDescending rowIds) = mset rowIds \<and>
         journal (snd (batchDeleteSyncedEventRows simulated sid rowIds world)) =
           journal world @
           [BatchUpdateSpreadsheet
              (map (\<lambda>rowId. DeleteDimension sid (rowId - 1) rowId) (sortDescending rowIds))] \<and>
         sortDescending [3, 7, 2] = [7, 3, 2]"
proof -
  have "sorted_wrt (\<lambda>x y. x \<ge> y) (sortDescending rowIds)"
    unfolding sortDescending_def by (simp add: sorted_wrt_rev)
  moreover have "mset (sortDescending rowIds) = mset rowIds"
    by (simp add: sortDescending_def)
  moreover have "journal (snd (batchDeleteSyncedEventRows simulated sid rowIds world)) =
           journal world @
           [BatchUpdateSpreadsheet
              (map (\<lambda>rowId. DeleteDimension sid (rowId - 1) rowId) (sortDescending rowIds))]"
    using assms
    by (simp add: batchDeleteSyncedEventRows_def deleteRequests_def simulated_def
        sim_spreadsheets_batchUpdate_def Let_def request_def split: option.splits)
  moreover have "sortDescending [3, 7, 2] = [7, 3, 2]"
    by (simp add: sortDescending_def)
  ultimately show ?thesis
    using assms by (simp add: batchDeleteSyncedEventRows_def deleteRequests_def)
qed

theorem batchDelete_descending_witness:
  "[3, 7, 2] \<noteq> ([] :: int list) \<and>
   journal (snd (batchDeleteSyncedEventRows simulated 7 [3, 7, 2] freshWorld)) =
     [BatchUpdateSpreadsheet [DeleteDimension 7 6 7, DeleteDimension 7 2 3, DeleteDimension 7 1 2]]"
proof -
  have n: "[3, 7, 2] \<noteq> ([] :: int list)" by simp
  from batchDelete_descending [OF n, of simulated 7 freshWorld freshWorld]
  have "journal (snd (batchDeleteSyncedEventRows simulated 7 [3, 7, 2] freshWorld)) =
           journal freshWorld @
           [BatchUpdateSpreadsheet
              (map (\<lambda>rowId. DeleteDimension 7 (rowId - 1) rowId) (sortDescending [3, 7, 2]))]"
    and "sortDescending [3, 7, 2] = [7, 3, 2]"
    by blast+
  then show ?thesis by (simp add: freshWorld_def)
qed


section \<open>The workflow\<close>

lemma body_success:
  assumes "syncGoogleCalendarsBody services config w = Some (Inr output, w')"
  obtains fetchA w1 fetchB w2 syncedRecords w3 aToB w4 w5 bToA w6 w7 orphanResult w8 w9 where
    "fetchCalendarEvents services (calendarAId config) (maxEvents config) (daysAhead config) w
       = (fetchA, w1)"
    "fetchCalendarEvents services (calendarBId config) (maxEvents config) (daysAhead config) w1
       = (fetchB, w2)"
    "loadSheetRecords services w2 = (Inr syncedRecords, w3)"
    "syncDirection services (fulfilledOr [] fetchA) syncedRecords (calendarAId config)
       (calendarBId config) (calendarAPrefix config) w3 = Some (aToB, w4)"
    "batchWrite services aToB w4 = (Inr (), w5)"
    "syncDirection services (fulfilledOr [] fetchB) syncedRecords (calendarBId config)
       (calendarAId config) (calendarBPrefix config) w5 = Some (bToA, w6)"
    "batchWrite services bToA w6 = (Inr (), w7)"
    "detectAndDeleteOrphans services (fulfilledOr [] fetchA) (fulfilledOr [] fetchB)
       syncedRecords (calendarAId config) (calendarBId config) w7 = Some (orphanResult, w8)"
    "batchDeleteOrphanRows services orphanResult w8 = (Inr (), w9)"
    "output = \<lparr> aToBStats = stats aToB, bToAStats = stats bToA,
        deletionStats = \<lparr> ds_deleted = orphansDeleted orphanResult,
                          ds_errors = orphanErrors orphanResult \<rparr>,
        eventsA = length (fulfilledOr [] fetchA), eventsB = length (fulfilledOr [] fetchB),
        sheetRecords = length syncedRecords \<rparr>"
    "w' = (if errors (stats aToB) + errors (stats bToA) + orphanErrors orphanResult > 0 \<and>
              telegramBotToken config \<noteq> [] \<and> telegramChatId config \<noteq> []
           then sendTelegramError services
                  (CompletedWithErrors (stats aToB) (stats bToA) (orphansDeleted orphanResult)
                     (orphanErrors orphanResult)) w9
           else w9)"
  using assms unfolding syncGoogleCalendarsBody_def runStep_def Let_def
  by (auto split: prod.splits sum.splits option.splits)


section \<open>The model of the services, step by step\<close>

lemma request_fields [simp]:
  "journal (request c w) = journal w @ [c]"
  "faults (request c w) = tl (faults w)"
  "calendars (request c w) = calendars w"
  "tombstones (request c w) = tombstones w"
  "sheet (request c w) = sheet w"
  "sheetIdentifier (request c w) = sheetIdentifier w"
  "issued (request c w) = issued w"
  "clock (request c w) = clock w"
  by (simp_all add: request_def)

lemma nextFault_simps [simp]:
  "faults w = [] \<Longrightarrow> nextFault w = False"
  "faults w = f # fs \<Longrightarrow> nextFault w = f"
  by (simp_all add: nextFault_def)

lemma fetch_simulated:
  "fetchCalendarEvents simulated c n d w =
     (if nextFault w then Inl unavailable
      else case calendars w c of None \<Rightarrow> Inl notFound | Some evs \<Rightarrow> Inr (take n evs),
      request (ListEvents c) w)"
  by (simp add: fetchCalendarEvents_def fetchEvents_def simulated_def sim_events_list_def Let_def
      split: option.splits)

lemma load_simulated:
  "loadSheetRecords simulated w =
     (if nextFault w then Inl unavailable
      else Inr (if length (sheet w) \<le> 1 then [] else parseRows (sheet w)),
      request GetValues w)"
  by (simp add: loadSheetRecords_def loadSyncedEvents_def simulated_def sim_values_get_def Let_def)

lemma processInBatches_Nil: "processInBatches services [] CONCURRENCY fn w = Some ([], w)"
  by (simp add: processInBatches_eq CONCURRENCY_def chunksOf.simps)

lemma processInBatches_single:
  "processInBatches services [x] CONCURRENCY fn w = Some ([settle (fst (fn x w))], snd (fn x w))"
  by (simp add: processInBatches_eq CONCURRENCY_def chunksOf.simps split_beta)

lemma syncDirection_idle:
  assumes "toCreate (analyzeEvents evs recs src tgt) = []"
    "toUpdate (analyzeEvents evs recs src tgt) = []"
  shows "syncDirection services evs recs src tgt pfx w =
     Some (\<lparr> stats = \<lparr> created = 0, updated = 0, deleted = 0, errors = 0 \<rparr>,
             pendingInserts = [], pendingUpdates = [] \<rparr>, w)"
  by (simp add: syncDirection_def Let_def assms processInBatches_Nil)

lemma batchWrite_idle:
  "pendingInserts r = [] \<Longrightarrow> pendingUpdates r = [] \<Longrightarrow> batchWrite services r w = (Inr (), w)"
  by (simp add: batchWrite_def batchInsertSyncedEvents_def batchUpdateSyncedEvents_def)

lemma detect_single:
  assumes "filter (isOrphan evA evB a b) recs = [r]"
  shows "detectAndDeleteOrphans services evA evB recs a b w =
     Some (collectDeletes [settle (fst (deleteItem services r w))]
             \<lparr> orphansDeleted = 0, orphanErrors = 0, pendingDeletes = [] \<rparr>,
           snd (deleteItem services r w))"
  by (simp add: detectAndDeleteOrphans_def Let_def assms processInBatches_single)


lemma deleteItem_simulated_eq:
  "deleteItem simulated r w =
     (if nextFault w then (Inl unavailable, request (deleteCall r) w)
      else case calendars w (secondary_calendar r) of
             None \<Rightarrow> (Inl notFound, request (deleteCall r) w)
           | Some evs \<Rightarrow>
               if secondary_event_id r \<in> id' ` set evs
               then (Inr r, (request (deleteCall r) w)
                      \<lparr> calendars := (calendars w)(secondary_calendar r \<mapsto>
                           filter (\<lambda>e. id' e \<noteq> secondary_event_id r) evs),
                        tombstones := tombstones w @
                           [(secondary_calendar r, secondary_event_id r)] \<rparr>)
               else if (secondary_calendar r, secondary_event_id r) \<in> set (tombstones w)
               then (Inr r, request (deleteCall r) w)
               else (Inl notFound, request (deleteCall r) w))"
  by (simp add: deleteItem_def deleteEvent_def simulated_def sim_events_delete_def Let_def
      deleteCall_def gone_def notFound_def unavailable_def split: option.splits)

lemma deleteRows_simulated:
  "batchDeleteOrphanRows simulated r w =
     (if nextFault w then (Inl unavailable, request GetSpreadsheet w)
      else if pendingDeletes r = [] then (Inr (), request GetSpreadsheet w)
      else if nextFault (request GetSpreadsheet w)
        then (Inl unavailable,
              request (BatchUpdateSpreadsheet
                (deleteRequests (sheetIdentifier w) (map pd_rowId (pendingDeletes r))))
                (request GetSpreadsheet w))
      else case applyRequests (sheetIdentifier w)
                  (deleteRequests (sheetIdentifier w) (map pd_rowId (pendingDeletes r)))
                  (sheet w) of
             None \<Rightarrow> (Inl badRequest,
                       request (BatchUpdateSpreadsheet
                         (deleteRequests (sheetIdentifier w) (map pd_rowId (pendingDeletes r))))
                         (request GetSpreadsheet w))
           | Some rows \<Rightarrow> (Inr (),
                       (request (BatchUpdateSpreadsheet
                         (deleteRequests (sheetIdentifier w) (map pd_rowId (pendingDeletes r))))
                         (request GetSpreadsheet w))\<lparr> sheet := rows \<rparr>))"
  by (simp add: batchDeleteOrphanRows_def getSheetId_def batchDeleteSyncedEventRows_def
      simulated_def sim_spreadsheets_get_def sim_spreadsheets_batchUpdate_def Let_def
      findSheetId_def split: option.splits)


lemma includesStr_append: "includesStr (p @ sub @ q) sub"
  by (simp add: includes_iff) blast

lemma join_last: "parts \<noteq> [] \<Longrightarrow> \<exists>p. join sep (parts @ [x]) = p @ x"
proof (induction sep parts rule: join.induct)
  case (1 sep)
  then show ?case by simp
next
  case (2 sep y)
  have "join sep ([y] @ [x]) = (y @ sep) @ x" by simp
  then show ?case by blast
next
  case (3 sep y z zs)
  then obtain p where "join sep ((z # zs) @ [x]) = p @ x" by auto
  then have "join sep ((y # z # zs) @ [x]) = (y @ sep @ p) @ x" by simp
  then show ?case by blast
qed

lemma join_last': "\<exists>p. join sep (parts @ [x]) = p @ x"
proof (cases "parts = []")
  case True
  then have "join sep (parts @ [x]) = [] @ x" by simp
  then show ?thesis by blast
next
  case False
  then show ?thesis by (rule join_last)
qed

lemma built_description_tagged:
  "includesStr (buildSyncedDescription event pfx src) SYNC_TAG"
proof -
  let ?last = "[CHR 0x0A] @ SYNC_TAG @ '' '' @ pfx @ '' ('' @ src @ '')''"
  obtain parts where "buildSyncedDescription event pfx src = join [CHR 0x0A] (parts @ [?last])"
    unfolding buildSyncedDescription_def Let_def by auto
  with join_last' [of "[CHR 0x0A]" parts ?last]
  obtain p where "buildSyncedDescription event pfx src = p @ ?last" by auto
  then have "buildSyncedDescription event pfx src =
             (p @ [CHR 0x0A]) @ SYNC_TAG @ ('' '' @ pfx @ '' ('' @ src @ '')'')" by simp
  then show ?thesis using includesStr_append by metis
qed

lemma copy_is_synced: "isSyncedCopy (eventOfBody i (buildSyncedEventBody event pfx src))"
  by (simp add: isSyncedCopy_def eventOfBody_def buildSyncedEventBody_def Let_def orEmpty_def
      built_description_tagged)

lemma copy_id [simp]: "id' (eventOfBody i body) = i"
  by (simp add: eventOfBody_def)

lemma analyze_all_skipped:
  assumes "\<forall>e\<in>set evs. id' e = [] \<or> isSyncedCopy e \<or> isTargetCalendarInAttendees e tgt"
  shows "toCreate (analyzeEvents evs recs src tgt) = [] \<and>
         toUpdate (analyzeEvents evs recs src tgt) = []"
proof -
  have "\<forall>e\<in>set evs. \<not> passesFilter tgt e" using assms by (auto simp: passesFilter_def)
  then have "filter (\<lambda>e. passesFilter tgt e \<and>
               buildRecordMap recs Map.empty (recordKey (id' e) src) = None) evs = []"
    and "List.map_filter (updatePair (buildRecordMap recs Map.empty) src tgt) evs = []"
    by (auto simp: filter_empty_conv List.map_filter_def updatePair_def)
  then show ?thesis by (simp add: analyzeEvents_eq)
qed

lemma outage_fields:
  "calendars outageWorld = (\<lambda>c. None)(''A'' \<mapsto> [standup], ''B'' \<mapsto> [copyOfStandup])"
  "faults outageWorld = [True]" "journal outageWorld = []" "tombstones outageWorld = []"
  "sheet outageWorld = [HEADERS, [''A'', ''e1'', ''B'', ''copy1'', ''Standup'',
       ''2026-03-02T09:00:00Z'', ''2026-03-02T09:30:00Z'', ''old'', ''t0'', ''t0'', ''t0'']]"
  "sheetIdentifier outageWorld = 7"
  by (simp_all add: outageWorld_def staleWorld_def freshWorld_def)

lemma parse_stale:
  "parseRows [HEADERS, [''A'', ''e1'', ''B'', ''copy1'', ''Standup'',
       ''2026-03-02T09:00:00Z'', ''2026-03-02T09:30:00Z'', ''old'', ''t0'', ''t0'', ''t0'']]
   = [trackedRow ''A'' ''e1'' ''old'']"
  by (simp add: parseRows_def parseRow_def cell_def trackedRow_def)

lemma outage_run:
  "\<exists>w'. syncGoogleCalendarsBody simulated sampleConfig outageWorld =
     Some (Inr \<lparr> aToBStats = \<lparr> created = 0, updated = 0, deleted = 0, errors = 0 \<rparr>,
                 bToAStats = \<lparr> created = 0, updated = 0, deleted = 0, errors = 0 \<rparr>,
                 deletionStats = \<lparr> ds_deleted = 1, ds_errors = 0 \<rparr>,
                 eventsA = 0, eventsB = 1, sheetRecords = 1 \<rparr>, w') \<and>
     journal w' = [ListEvents ''A'', ListEvents ''B'', GetValues, DeleteEvent ''B'' ''copy1'',
                   GetSpreadsheet, BatchUpdateSpreadsheet [DeleteDimension 7 1 2]] \<and>
     calendars w' ''A'' = Some [standup] \<and> calendars w' ''B'' = Some [] \<and>
     sheet w' = [HEADERS]"
proof -
  let ?row = "trackedRow ''A'' ''e1'' ''old''"
  have a1: "toCreate (analyzeEvents [] [?row] ''A'' ''B'') = []"
    "toUpdate (analyzeEvents [] [?row] ''A'' ''B'') = []"
    by (simp_all add: analyzeEvents_def)
  have a2: "toCreate (analyzeEvents [copyOfStandup] [?row] ''B'' ''A'') = []"
    "toUpdate (analyzeEvents [copyOfStandup] [?row] ''B'' ''A'') = []"
    using analyze_all_skipped [of "[copyOfStandup]" "''A''" "[?row]" "''B''"]
    by (simp_all add: copyOfStandup_def copy_is_synced)
  have o: "filter (isOrphan [] [copyOfStandup] ''A'' ''B'') [?row] = [?row]"
    by (simp add: isOrphan_def trackedRow_def)
  have r: "secondary_calendar ?row = ''B''" "secondary_event_id ?row = ''copy1''"
    "rowNumber ?row = 2"
    by (simp_all add: trackedRow_def)
  have i: "id' copyOfStandup = ''copy1''" by (simp add: copyOfStandup_def)
  show ?thesis
    unfolding syncGoogleCalendarsBody_def runStep_def sampleConfig_def
    by (simp add: fetch_simulated load_simulated outage_fields parse_stale
        syncDirection_idle [OF a1] syncDirection_idle [OF a2] batchWrite_idle
        detect_single [OF o] deleteItem_simulated_eq r i settle_def deleteRows_simulated
        deleteRequests_def sortDescending_def deleteCall_def fulfilledOr_def)
qed


lemma allSettled_rel:
  assumes "\<And>w. R w w" "\<And>a b c. R a b \<Longrightarrow> R b c \<Longrightarrow> R a c"
    "\<And>x w. x \<in> set xs \<Longrightarrow> R w (snd (fn x w))"
  shows "R w (snd (allSettled fn xs w))"
  using assms(3)
proof (induction xs arbitrary: w)
  case Nil
  show ?case by (simp add: assms(1))
next
  case (Cons x xs)
  have "R w (snd (fn x w))" by (rule Cons.prems) simp
  moreover have "R (snd (fn x w)) (snd (allSettled fn xs (snd (fn x w))))"
    by (rule Cons.IH) (simp add: Cons.prems)
  ultimately have "R w (snd (allSettled fn xs (snd (fn x w))))" by (rule assms(2))
  then show ?case by (simp add: split_beta)
qed

lemma runChunks_rel:
  assumes "\<And>w. R w w" "\<And>a b c. R a b \<Longrightarrow> R b c \<Longrightarrow> R a c"
    "\<And>x w. x \<in> set (concat cs) \<Longrightarrow> R w (snd (fn x w))"
    "\<And>w. R w (delay services BATCH_DELAY_MS w)"
  shows "R w (snd (runChunks services fn cs first w))"
  using assms(3)
proof (induction cs arbitrary: w first)
  case Nil
  show ?case by (simp add: assms(1))
next
  case (Cons c cs)
  let ?w1 = "if first then w else delay services BATCH_DELAY_MS w"
  let ?w2 = "snd (allSettled fn c ?w1)"
  have "R w ?w1" by (simp add: assms(1,4))
  moreover have "R ?w1 ?w2"
  proof (rule allSettled_rel [where R = R])
    show "\<And>w. R w w" by (rule assms(1))
    show "\<And>a b c. R a b \<Longrightarrow> R b c \<Longrightarrow> R a c" by (rule assms(2))
    show "\<And>x w. x \<in> set c \<Longrightarrow> R w (snd (fn x w))" by (rule Cons.prems) simp
  qed
  moreover have "R ?w2 (snd (runChunks services fn cs False ?w2))"
    by (rule Cons.IH) (simp add: Cons.prems)
  ultimately have "R w (snd (runChunks services fn cs False ?w2))" using assms(2) by blast
  then show ?case by (simp add: split_beta Let_def)
qed

lemma processInBatches_rel:
  assumes "\<And>w. R w w" "\<And>a b c. R a b \<Longrightarrow> R b c \<Longrightarrow> R a c"
    "\<And>x w. x \<in> set items \<Longrightarrow> R w (snd (fn x w))"
    "\<And>w. R w (delay services BATCH_DELAY_MS w)"
    "processInBatches services items CONCURRENCY fn w = Some (rs, w')"
  shows "R w w'"
proof -
  have c: "concat (chunksOf (nat CONCURRENCY) items) = items"
    by (intro concat_chunksOf) (simp add: CONCURRENCY_def)
  have "processInBatches services items CONCURRENCY fn w =
          Some (runChunks services fn (chunksOf (nat CONCURRENCY) items) True w)"
    by (rule processInBatches_eq) (simp add: CONCURRENCY_def)
  with assms(5) have "w' = snd (runChunks services fn (chunksOf (nat CONCURRENCY) items) True w)"
    by simp
  moreover have "R w (snd (runChunks services fn (chunksOf (nat CONCURRENCY) items) True w))"
    using assms(1,2) by (rule runChunks_rel) (simp_all add: c assms(3,4))
  ultimately show ?thesis by simp
qed

lemma syncDirection_rel:
  assumes "\<And>w. R w w" "\<And>a b c. R a b \<Longrightarrow> R b c \<Longrightarrow> R a c"
    "\<And>x w. x \<in> set (toCreate (analyzeEvents evs recs src tgt)) \<Longrightarrow>
       R w (snd (createItem services src tgt pfx x w))"
    "\<And>x w. x \<in> set (toUpdate (analyzeEvents evs recs src tgt)) \<Longrightarrow>
       R w (snd (updateItem services src tgt pfx x w))"
    "\<And>w. R w (delay services BATCH_DELAY_MS w)"
    "syncDirection services evs recs src tgt pfx w = Some (res, w')"
  shows "R w w'"
proof -
  from syncDirection_run [of services evs recs src tgt pfx w]
  obtain createResults w1 updateResults w2 where
    c: "processInBatches services (toCreate (analyzeEvents evs recs src tgt)) CONCURRENCY
          (createItem services src tgt pfx) w = Some (createResults, w1)"
    and u: "processInBatches services (toUpdate (analyzeEvents evs recs src tgt)) CONCURRENCY
          (updateItem services src tgt pfx) w1 = Some (updateResults, w2)"
    and s: "syncDirection services evs recs src tgt pfx w =
       Some (\<lparr> stats = \<lparr> created = length (fulfilledValues createResults),
                          updated = length (fulfilledValues updateResults),
                          deleted = 0,
                          errors = failures createResults + failures updateResults \<rparr>,
               pendingInserts = map (\<lambda>v. newInsert src tgt (fst v) (snd v))
                                   (fulfilledValues createResults),
               pendingUpdates = map (\<lambda>v. newUpdate (fst v) (snd v))
                                   (fulfilledValues updateResults) \<rparr>, w2)"
    by blast
  have "R w w1"
  proof (rule processInBatches_rel [where R = R, OF _ _ _ _ c])
    show "\<And>w. R w w" by (rule assms(1))
    show "\<And>a b c. R a b \<Longrightarrow> R b c \<Longrightarrow> R a c" by (rule assms(2))
    show "\<And>x w. x \<in> set (toCreate (analyzeEvents evs recs src tgt)) \<Longrightarrow>
       R w (snd (createItem services src tgt pfx x w))" by (rule assms(3))
    show "\<And>w. R w (delay services BATCH_DELAY_MS w)" by (rule assms(5))
  qed
  moreover have "R w1 w2"
  proof (rule processInBatches_rel [where R = R, OF _ _ _ _ u])
    show "\<And>w. R w w" by (rule assms(1))
    show "\<And>a b c. R a b \<Longrightarrow> R b c \<Longrightarrow> R a c" by (rule assms(2))
    show "\<And>x w. x \<in> set (toUpdate (analyzeEvents evs recs src tgt)) \<Longrightarrow>
       R w (snd (updateItem services src tgt pfx x w))" by (rule assms(4))
    show "\<And>w. R w (delay services BATCH_DELAY_MS w)" by (rule assms(5))
  qed
  moreover have "w' = w2" using s assms(6) by simp
  ultimately show ?thesis using assms(2) by blast
qed

lemma detect_rel:
  assumes "\<And>w. R w w" "\<And>a b c. R a b \<Longrightarrow> R b c \<Longrightarrow> R a c"
    "\<And>x w. x \<in> set (filter (isOrphan evA evB a b) recs) \<Longrightarrow>
       R w (snd (deleteItem services x w))"
    "\<And>w. R w (delay services BATCH_DELAY_MS w)"
    "detectAndDeleteOrphans services evA evB recs a b w = Some (res, w')"
  shows "R w w'"
proof -
  from detectAndDeleteOrphans_run [of services evA evB a b recs w]
  obtain deleteResults w1 where
    d: "processInBatches services (filter (isOrphan evA evB a b) recs) CONCURRENCY
          (deleteItem services) w = Some (deleteResults, w1)"
    and s: "detectAndDeleteOrphans services evA evB recs a b w =
       Some (\<lparr> orphansDeleted = length (fulfilledValues deleteResults),
               orphanErrors = failures deleteResults,
               pendingDeletes = map (\<lambda>r. \<lparr> pd_rowId = rowNumber r \<rparr>)
                                   (fulfilledValues deleteResults) \<rparr>, w1)"
    by blast
  have "R w w1"
  proof (rule processInBatches_rel [where R = R, OF _ _ _ _ d])
    show "\<And>w. R w w" by (rule assms(1))
    show "\<And>a b c. R a b \<Longrightarrow> R b c \<Longrightarrow> R a c" by (rule assms(2))
    show "\<And>x w. x \<in> set (filter (isOrphan evA evB a b) recs) \<Longrightarrow>
       R w (snd (deleteItem services x w))" by (rule assms(3))
    show "\<And>w. R w (delay services BATCH_DELAY_MS w)" by (rule assms(4))
  qed
  moreover have "w' = w1" using s assms(5) by simp
  ultimately show ?thesis by simp
qed

lemma reads_request [simp]:
  "ledgerReads (request c w) = ledgerReads w + (if c = GetValues then 1 else 0)"
  by (simp add: ledgerReads_def)

lemma reads_update [simp]:
  "ledgerReads (w\<lparr>calendars := x\<rparr>) = ledgerReads w"
  "ledgerReads (w\<lparr>tombstones := y\<rparr>) = ledgerReads w"
  "ledgerReads (w\<lparr>sheet := z\<rparr>) = ledgerReads w"
  "ledgerReads (w\<lparr>issued := n\<rparr>) = ledgerReads w"
  by (simp_all add: ledgerReads_def)

lemma reads_createItem: "ledgerReads (snd (createItem simulated s t p x w)) = ledgerReads w"
  by (simp add: createItem_def createEvent_def simulated_def sim_events_insert_def Let_def
      split: option.splits)

lemma reads_updateItem: "ledgerReads (snd (updateItem simulated s t p x w)) = ledgerReads w"
  by (simp add: updateItem_def updateEvent_def simulated_def sim_events_update_def Let_def
      split: option.splits)

lemma reads_deleteItem: "ledgerReads (snd (deleteItem simulated x w)) = ledgerReads w"
  by (simp add: deleteItem_simulated_eq deleteCall_def split: option.splits)

lemma reads_delay: "ledgerReads (delay simulated ms w) = ledgerReads w"
  by (simp add: delay_def simulated_def ledgerReads_def)

lemma reads_syncDirection:
  "syncDirection simulated evs recs s t p w = Some (res, w') \<Longrightarrow> ledgerReads w' = ledgerReads w"
  by (rule syncDirection_rel [where R = "\<lambda>a b. ledgerReads b = ledgerReads a"])
    (simp_all add: reads_createItem reads_updateItem reads_delay)

lemma reads_detect:
  "detectAndDeleteOrphans simulated evA evB recs a b w = Some (res, w') \<Longrightarrow>
   ledgerReads w' = ledgerReads w"
  by (rule detect_rel [where R = "\<lambda>a b. ledgerReads b = ledgerReads a"])
    (simp_all add: reads_deleteItem reads_delay)

lemma reads_fetch:
  "fetchCalendarEvents simulated c n d w = (x, w') \<Longrightarrow> ledgerReads w' = ledgerReads w"
  by (auto simp: fetch_simulated)

lemma reads_load:
  "loadSheetRecords simulated w = (x, w') \<Longrightarrow> ledgerReads w' = ledgerReads w + 1"
  by (auto simp: load_simulated)

lemma reads_batchWrite:
  "batchWrite simulated r w = (x, w') \<Longrightarrow> ledgerReads w' = ledgerReads w"
  by (auto simp: batchWrite_def batchInsertSyncedEvents_def batchUpdateSyncedEvents_def
      simulated_def sim_values_append_def sim_values_batchUpdate_def Let_def
      split: if_splits prod.splits sum.splits)

lemma reads_deleteRows:
  "batchDeleteOrphanRows simulated r w = (x, w') \<Longrightarrow> ledgerReads w' = ledgerReads w"
  by (auto simp: deleteRows_simulated split: if_splits option.splits)

lemma reads_telegram: "ledgerReads (sendTelegramError simulated m w) = ledgerReads w"
  by (simp add: sendTelegramError_def simulated_def ledgerReads_def)

lemma body_reads:
  assumes "syncGoogleCalendarsBody simulated config w = Some (result, w')"
  shows "ledgerReads w' = ledgerReads w + 1"
  using assms unfolding syncGoogleCalendarsBody_def runStep_def Let_def
  by (auto split: prod.splits sum.splits option.splits if_splits
      dest!: reads_fetch reads_load reads_syncDirection reads_batchWrite reads_detect
        reads_deleteRows simp: reads_telegram)


text \<open>The orphan detector where the second of two deletes fails.\<close>

lemma flaky_fields:
  "calendars flakyWorld = (\<lambda>c. None)(''A'' \<mapsto> [], ''B'' \<mapsto> [copyOfStandup])"
  "faults flakyWorld = [False, True]" "journal flakyWorld = []" "tombstones flakyWorld = []"
  by (simp_all add: flakyWorld_def orphanWorld_def staleWorld_def freshWorld_def)

theorem orphans_deleted_then_rows_witness:
  "isOrphan [] [copyOfStandup] ''A'' ''B'' (trackedRow ''A'' ''e1'' ''old'') \<and>
   isOrphan [] [copyOfStandup] ''A'' ''B'' secondRow \<and>
   map_option fst
     (detectAndDeleteOrphans simulated [] [copyOfStandup]
        [trackedRow ''A'' ''e1'' ''old'', secondRow] ''A'' ''B'' flakyWorld) =
     Some \<lparr> orphansDeleted = 1, orphanErrors = 1, pendingDeletes = [\<lparr> pd_rowId = 2 \<rparr>] \<rparr> \<and>
   map_option (journal \<circ> snd)
     (detectAndDeleteOrphans simulated [] [copyOfStandup]
        [trackedRow ''A'' ''e1'' ''old'', secondRow] ''A'' ''B'' flakyWorld) =
     Some [DeleteEvent ''B'' ''copy1'', DeleteEvent ''B'' ''copy2'']"
proof -
  let ?row = "trackedRow ''A'' ''e1'' ''old''"
  note t = orphans_deleted_then_rows [where evA = "[]" and evB = "[copyOfStandup]" and a = "''A''"
      and b = "''B''" and syncedRecords = "[?row, secondRow]" and services = simulated
      and w = flakyWorld]
  have o: "isOrphan [] [copyOfStandup] ''A'' ''B'' ?row"
    "isOrphan [] [copyOfStandup] ''A'' ''B'' secondRow"
    using t by (simp_all add: trackedRow_def secondRow_def)
  have i: "filter (isOrphan [] [copyOfStandup] ''A'' ''B'') [?row, secondRow] = [?row, secondRow]"
    using o by simp
  have c: "chunksOf 5 [?row, secondRow] = [[?row, secondRow]]" by (simp add: chunksOf.simps)
  have r: "secondary_calendar ?row = ''B''" "secondary_event_id ?row = ''copy1''"
    "rowNumber ?row = 2" "secondary_calendar secondRow = ''B''"
    "secondary_event_id secondRow = ''copy2''" "rowNumber secondRow = 3"
    by (simp_all add: trackedRow_def secondRow_def)
  have k: "id' copyOfStandup = ''copy1''" by (simp add: copyOfStandup_def eventOfBody_def)
  let ?run = "runChunks simulated (deleteItem simulated)
                (chunksOf (nat CONCURRENCY) [?row, secondRow]) True flakyWorld"
  from t [unfolded i]
  have d: "detectAndDeleteOrphans simulated [] [copyOfStandup] [?row, secondRow] ''A'' ''B''
       flakyWorld =
     Some (\<lparr> orphansDeleted =
               length (filter (\<lambda>p. \<not> isRejected (snd p)) (zip [?row, secondRow] (fst ?run))),
             orphanErrors = failures (fst ?run),
             pendingDeletes = map (\<lambda>p. \<lparr> pd_rowId = rowNumber (fst p) \<rparr>)
               (filter (\<lambda>p. \<not> isRejected (snd p)) (zip [?row, secondRow] (fst ?run))) \<rparr>,
           snd ?run)"
    by blast
  have f: "fst ?run = [Fulfilled ?row, Rejected unavailable]"
    by (simp add: CONCURRENCY_def c deleteItem_simulated_eq flaky_fields r k settle_def nextFault_def)
  have j: "journal (snd ?run) = [DeleteEvent ''B'' ''copy1'', DeleteEvent ''B'' ''copy2'']"
    by (simp add: CONCURRENCY_def c deleteItem_simulated_eq flaky_fields r k deleteCall_def nextFault_def)
  show ?thesis using o by (simp add: d f j failures_def r)
qed

text \<open>
  Claim C7. The events of a calendar whose fetch failed are the empty list, and the pass goes
  on. Let the ledger read and the two batch writes of the pass not throw, and let
  \<open>syncedRecords\<close> be the records of that read and \<open>w7\<close> the world after the second batch
  write. Then with an empty list for calendar A every ledger record whose primary calendar is
  A is an orphan (and likewise for B); the detector runs the delete of the secondary event on
  every orphan, starting in \<open>w7\<close> (\<open>run\<close>, one outcome for each orphan); the rows of the
  orphans whose delete succeeded are the pending deletes handed to the row delete step; and
  the pass ends as that step ends: with its error if it throws, and otherwise with the output
  that counts these deletes. Nothing looks at whether the primary events still exist on the
  calendar that was not fetched.
\<close>

theorem failed_fetch_orphans:
  fixes services :: "'w Services" and config w fetchA fetchB syncedRecords aToB bToA w7
  defines "a \<equiv> calendarAId config" and "b \<equiv> calendarBId config"
  defines "evA \<equiv> (case fetchA of Inl error \<Rightarrow> [] | Inr evs \<Rightarrow> evs)"
  defines "evB \<equiv> (case fetchB of Inl error \<Rightarrow> [] | Inr evs \<Rightarrow> evs)"
  defines "orphans \<equiv> filter (isOrphan evA evB a b) syncedRecords"
  defines "run \<equiv> runChunks services (deleteItem services) (chunksOf (nat CONCURRENCY) orphans)
                   True w7"
  defines "removed \<equiv> filter (\<lambda>p. \<not> isRejected (snd p)) (zip orphans (fst run))"
  defines "orphanResult \<equiv>
             \<lparr> orphansDeleted = length removed, orphanErrors = failures (fst run),
               pendingDeletes = map (\<lambda>p. \<lparr> pd_rowId = rowNumber (fst p) \<rparr>) removed \<rparr>"
  assumes fa: "fetchCalendarEvents services a (maxEvents config) (daysAhead config) w = (fetchA, w1)"
    and fb: "fetchCalendarEvents services b (maxEvents config) (daysAhead config) w1 = (fetchB, w2)"
    and ld: "loadSheetRecords services w2 = (Inr syncedRecords, w3)"
    and ab: "syncDirection services evA syncedRecords a b (calendarAPrefix config) w3 =
               Some (aToB, w4)"
    and wa: "batchWrite services aToB w4 = (Inr (), w5)"
    and ba: "syncDirection services evB syncedRecords b a (calendarBPrefix config) w5 =
               Some (bToA, w6)"
    and wb: "batchWrite services bToA w6 = (Inr (), w7)"
  shows
   "(\<forall>error. fetchA = Inl error \<longrightarrow>
       evA = [] \<and> (\<forall>record\<in>set syncedRecords. primary_calendar record = a \<longrightarrow> record \<in> set orphans)) \<and>
    (\<forall>error. fetchB = Inl error \<longrightarrow>
       evB = [] \<and> (\<forall>record\<in>set syncedRecords. primary_calendar record = b \<longrightarrow> record \<in> set orphans)) \<and>
    length (fst run) = length orphans \<and>
    syncGoogleCalendarsBody services config w =
      (case batchDeleteOrphanRows services orphanResult (snd run) of
         (Inl error, w9) \<Rightarrow> Some (Inl error, w9)
       | (Inr u, w9) \<Rightarrow>
           Some (Inr \<lparr> aToBStats = stats aToB, bToAStats = stats bToA,
                       deletionStats = \<lparr> ds_deleted = length removed,
                                         ds_errors = failures (fst run) \<rparr>,
                       eventsA = length evA, eventsB = length evB,
                       sheetRecords = length syncedRecords \<rparr>,
                 if errors (stats aToB) + errors (stats bToA) + failures (fst run) > 0 \<and>
                    telegramBotToken config \<noteq> [] \<and> telegramChatId config \<noteq> []
                 then sendTelegramError services
                        (CompletedWithErrors (stats aToB) (stats bToA) (length removed)
                           (failures (fst run))) w9
                 else w9))"
proof -
  have ea: "fulfilledOr [] fetchA = evA" and eb: "fulfilledOr [] fetchB = evB"
    by (simp_all add: fulfilledOr_def evA_def evB_def)
  have 1: "\<forall>error. fetchA = Inl error \<longrightarrow>
       evA = [] \<and> (\<forall>record\<in>set syncedRecords. primary_calendar record = a \<longrightarrow> record \<in> set orphans)"
    by (simp add: evA_def orphans_def isOrphan_iff)
  have 2: "\<forall>error. fetchB = Inl error \<longrightarrow>
       evB = [] \<and> (\<forall>record\<in>set syncedRecords. primary_calendar record = b \<longrightarrow> record \<in> set orphans)"
    by (simp add: evB_def orphans_def isOrphan_iff)
  have d: "detectAndDeleteOrphans services evA evB syncedRecords a b w7 =
             Some (orphanResult, snd run)"
    and 3: "length (fst run) = length orphans"
    unfolding orphanResult_def removed_def run_def orphans_def
    by (rule detectAndDeleteOrphans_eq)+
  have r: "orphansDeleted orphanResult = length removed"
    "orphanErrors orphanResult = failures (fst run)"
    by (simp_all add: orphanResult_def)
  have 4: "syncGoogleCalendarsBody services config w =
      (case batchDeleteOrphanRows services orphanResult (snd run) of
         (Inl error, w9) \<Rightarrow> Some (Inl error, w9)
       | (Inr u, w9) \<Rightarrow>
           Some (Inr \<lparr> aToBStats = stats aToB, bToAStats = stats bToA,
                       deletionStats = \<lparr> ds_deleted = length removed,
                                         ds_errors = failures (fst run) \<rparr>,
                       eventsA = length evA, eventsB = length evB,
                       sheetRecords = length syncedRecords \<rparr>,
                 if errors (stats aToB) + errors (stats bToA) + failures (fst run) > 0 \<and>
                    telegramBotToken config \<noteq> [] \<and> telegramChatId config \<noteq> []
                 then sendTelegramError services
                        (CompletedWithErrors (stats aToB) (stats bToA) (length removed)
                           (failures (fst run))) w9
                 else w9))"
    unfolding syncGoogleCalendarsBody_def runStep_def a_def [symmetric] b_def [symmetric]
    by (simp add: fa fb ld ea eb ab wa ba wb d r split: prod.splits sum.splits)
  from 1 2 3 4 show ?thesis by blast
qed

lemma blackout_fields:
  "calendars blackoutWorld = (\<lambda>c. None)(''A'' \<mapsto> [standup], ''B'' \<mapsto> [copyOfStandup])"
  "faults blackoutWorld = [True]" "journal blackoutWorld = []" "tombstones blackoutWorld = []"
  "sheet blackoutWorld =
     [HEADERS,
      [''A'', ''e1'', ''B'', ''copy1'', ''Standup'', ''2026-03-02T09:00:00Z'',
       ''2026-03-02T09:30:00Z'', ''old'', ''t0'', ''t0'', ''t0''],
      [''A'', ''e2'', ''B'', ''copy2'', ''Standup'', ''2026-03-02T09:00:00Z'',
       ''2026-03-02T09:30:00Z'', ''old'', ''t0'', ''t0'', ''t0'']]"
  "sheetIdentifier blackoutWorld = 7"
  by (simp_all add: blackoutWorld_def outageWorld_def staleWorld_def freshWorld_def)

lemma parse_blackout:
  "parseRows [HEADERS,
      [''A'', ''e1'', ''B'', ''copy1'', ''Standup'', ''2026-03-02T09:00:00Z'',
       ''2026-03-02T09:30:00Z'', ''old'', ''t0'', ''t0'', ''t0''],
      [''A'', ''e2'', ''B'', ''copy2'', ''Standup'', ''2026-03-02T09:00:00Z'',
       ''2026-03-02T09:30:00Z'', ''old'', ''t0'', ''t0'', ''t0'']]
   = [trackedRow ''A'' ''e1'' ''old'', secondRow]"
  by (simp add: parseRows_def parseRow_def cell_def trackedRow_def secondRow_def)

text \<open>
  In \<open>blackoutWorld\<close> the fetch of calendar A fails while the stand-up is still on it. Both
  ledger rows are orphans: the copy \<open>copy1\<close> is deleted from calendar B and its row from the
  ledger; the delete of \<open>copy2\<close> is answered 404, counted as an error, and its row stays.
\<close>

theorem failed_fetch_orphans_witness:
  "fst (fetchCalendarEvents simulated ''A'' 2500 180 blackoutWorld) = Inl unavailable \<and>
   calendars blackoutWorld ''A'' = Some [standup] \<and>
   (\<exists>w'. syncGoogleCalendarsBody simulated sampleConfig blackoutWorld =
      Some (Inr \<lparr> aToBStats = noStats, bToAStats = noStats,
                  deletionStats = \<lparr> ds_deleted = 1, ds_errors = 1 \<rparr>,
                  eventsA = 0, eventsB = 1, sheetRecords = 2 \<rparr>, w') \<and>
      journal w' = [ListEvents ''A'', ListEvents ''B'', GetValues, DeleteEvent ''B'' ''copy1'',
                    DeleteEvent ''B'' ''copy2'', GetSpreadsheet,
                    BatchUpdateSpreadsheet [DeleteDimension 7 1 2]] \<and>
      calendars w' ''A'' = Some [standup] \<and> calendars w' ''B'' = Some [] \<and>
      sheet w' = [HEADERS,
        [''A'', ''e2'', ''B'', ''copy2'', ''Standup'', ''2026-03-02T09:00:00Z'',
         ''2026-03-02T09:30:00Z'', ''old'', ''t0'', ''t0'', ''t0'']])"
proof -
  let ?row = "trackedRow ''A'' ''e1'' ''old''"
  let ?w1 = "request (ListEvents ''A'') blackoutWorld"
  let ?w2 = "request (ListEvents ''B'') ?w1"
  let ?w3 = "request GetValues ?w2"
  let ?idle = "\<lparr> stats = \<lparr> created = 0, updated = 0, deleted = 0, errors = 0 \<rparr>,
                 pendingInserts = [], pendingUpdates = [] \<rparr>"
  let ?fA = "Inl unavailable :: ApiError + GoogleCalendarEvent list"
  let ?fB = "Inr [copyOfStandup] :: ApiError + GoogleCalendarEvent list"
  have f: "fst (fetchCalendarEvents simulated ''A'' 2500 180 blackoutWorld) = Inl unavailable"
    by (simp add: fetch_simulated blackout_fields)
  have fa: "fetchCalendarEvents simulated (calendarAId sampleConfig) (maxEvents sampleConfig)
              (daysAhead sampleConfig) blackoutWorld = (?fA, ?w1)"
    by (simp add: fetch_simulated blackout_fields sampleConfig_def)
  have fb: "fetchCalendarEvents simulated (calendarBId sampleConfig) (maxEvents sampleConfig)
              (daysAhead sampleConfig) ?w1 = (?fB, ?w2)"
    by (simp add: fetch_simulated blackout_fields sampleConfig_def)
  have ld: "loadSheetRecords simulated ?w2 = (Inr [?row, secondRow], ?w3)"
    by (simp add: load_simulated blackout_fields parse_blackout)
  have a1: "toCreate (analyzeEvents [] [?row, secondRow] ''A'' ''B'') = []"
    "toUpdate (analyzeEvents [] [?row, secondRow] ''A'' ''B'') = []"
    by (simp_all add: analyzeEvents_def)
  have a2: "toCreate (analyzeEvents [copyOfStandup] [?row, secondRow] ''B'' ''A'') = []"
    "toUpdate (analyzeEvents [copyOfStandup] [?row, secondRow] ''B'' ''A'') = []"
    using analyze_all_skipped [of "[copyOfStandup]" "''A''" "[?row, secondRow]" "''B''"]
    by (simp_all add: copyOfStandup_def copy_is_synced)
  have ab: "syncDirection simulated (case ?fA of Inl error \<Rightarrow> [] | Inr evs \<Rightarrow> evs)
              [?row, secondRow]
              (calendarAId sampleConfig) (calendarBId sampleConfig) (calendarAPrefix sampleConfig)
              ?w3 = Some (?idle, ?w3)"
    by (simp add: sampleConfig_def syncDirection_idle [OF a1])
  have wa: "batchWrite simulated ?idle ?w3 = (Inr (), ?w3)" by (simp add: batchWrite_idle)
  have ba: "syncDirection simulated (case ?fB of Inl error \<Rightarrow> [] | Inr evs \<Rightarrow> evs)
              [?row, secondRow]
              (calendarBId sampleConfig) (calendarAId sampleConfig) (calendarBPrefix sampleConfig)
              ?w3 = Some (?idle, ?w3)"
    by (simp add: sampleConfig_def syncDirection_idle [OF a2])
  have o: "isOrphan [] [copyOfStandup] ''A'' ''B'' ?row"
    "isOrphan [] [copyOfStandup] ''A'' ''B'' secondRow"
    by (simp_all add: isOrphan_def trackedRow_def secondRow_def)
  have r: "secondary_calendar ?row = ''B''" "secondary_event_id ?row = ''copy1''"
    "rowNumber ?row = 2" "secondary_calendar secondRow = ''B''"
    "secondary_event_id secondRow = ''copy2''" "rowNumber secondRow = 3"
    by (simp_all add: trackedRow_def secondRow_def)
  have i: "id' copyOfStandup = ''copy1''" by (simp add: copyOfStandup_def)
  have c: "chunksOf 5 [?row, secondRow] = [[?row, secondRow]]" by (simp add: chunksOf.simps)
  from failed_fetch_orphans [OF fa fb ld ab wa ba wa]
  have "\<exists>w'. syncGoogleCalendarsBody simulated sampleConfig blackoutWorld =
      Some (Inr \<lparr> aToBStats = noStats, bToAStats = noStats,
                  deletionStats = \<lparr> ds_deleted = 1, ds_errors = 1 \<rparr>,
                  eventsA = 0, eventsB = 1, sheetRecords = 2 \<rparr>, w') \<and>
      journal w' = [ListEvents ''A'', ListEvents ''B'', GetValues, DeleteEvent ''B'' ''copy1'',
                    DeleteEvent ''B'' ''copy2'', GetSpreadsheet,
                    BatchUpdateSpreadsheet [DeleteDimension 7 1 2]] \<and>
      calendars w' ''A'' = Some [standup] \<and> calendars w' ''B'' = Some [] \<and>
      sheet w' = [HEADERS,
        [''A'', ''e2'', ''B'', ''copy2'', ''Standup'', ''2026-03-02T09:00:00Z'',
         ''2026-03-02T09:30:00Z'', ''old'', ''t0'', ''t0'', ''t0'']]"
    by (simp add: sampleConfig_def o c CONCURRENCY_def deleteItem_simulated_eq blackout_fields r i
        settle_def failures_def deleteRows_simulated deleteRequests_def sortDescending_def
        deleteCall_def noStats_def nextFault_def)
  with f show ?thesis by (simp add: blackout_fields)
qed

text \<open>
  Claim C4 (amended). The batched workflow reads the ledger exactly once in a pass, however
  the pass ends. When the pass runs to its end it is this chain of steps, each starting in the
  world the step before it has left: the two fetches, which read nothing; the one ledger
  read, whose records are \<open>syncedRecords\<close>; the direction A to B, its batch write, the
  direction B to A, its batch write, the orphan detection and the row delete step, where both
  directions and the orphan detection are run with \<open>syncedRecords\<close> and after none of these
  steps the number of ledger reads has changed. The batch writers are modelled from the
  specification: one append, one batch update, one structural delete, and no read.
\<close>

theorem ledger_read_once:
  assumes "syncGoogleCalendarsWorkflow simulated config w = Some (result, w')"
  shows "ledgerReads w' = ledgerReads w + 1 \<and>
         (\<forall>outp. result = Inr outp \<longrightarrow>
            (\<exists>fetchA w1 fetchB w2 syncedRecords w3 aToB w4 w5 bToA w6 w7 orphanResult w8 w9.
               fetchCalendarEvents simulated (calendarAId config) (maxEvents config)
                 (daysAhead config) w = (fetchA, w1) \<and>
               fetchCalendarEvents simulated (calendarBId config) (maxEvents config)
                 (daysAhead config) w1 = (fetchB, w2) \<and>
               ledgerReads w2 = ledgerReads w \<and>
               loadSheetRecords simulated w2 = (Inr syncedRecords, w3) \<and>
               ledgerReads w3 = ledgerReads w + 1 \<and>
               syncDirection simulated (fulfilledOr [] fetchA) syncedRecords (calendarAId config)
                 (calendarBId config) (calendarAPrefix config) w3 = Some (aToB, w4) \<and>
               batchWrite simulated aToB w4 = (Inr (), w5) \<and>
               syncDirection simulated (fulfilledOr [] fetchB) syncedRecords (calendarBId config)
                 (calendarAId config) (calendarBPrefix config) w5 = Some (bToA, w6) \<and>
               batchWrite simulated bToA w6 = (Inr (), w7) \<and>
               detectAndDeleteOrphans simulated (fulfilledOr [] fetchA) (fulfilledOr [] fetchB)
                 syncedRecords (calendarAId config) (calendarBId config) w7 =
                 Some (orphanResult, w8) \<and>
               batchDeleteOrphanRows simulated orphanResult w8 = (Inr (), w9) \<and>
               ledgerReads w4 = ledgerReads w3 \<and> ledgerReads w5 = ledgerReads w3 \<and>
               ledgerReads w6 = ledgerReads w3 \<and> ledgerReads w7 = ledgerReads w3 \<and>
               ledgerReads w8 = ledgerReads w3 \<and> ledgerReads w9 = ledgerReads w3 \<and>
               outp = \<lparr> aToBStats = stats aToB, bToAStats = stats bToA,
                        deletionStats = \<lparr> ds_deleted = orphansDeleted orphanResult,
                                          ds_errors = orphanErrors orphanResult \<rparr>,
                        eventsA = length (fulfilledOr [] fetchA),
                        eventsB = length (fulfilledOr [] fetchB),
                        sheetRecords = length syncedRecords \<rparr> \<and>
               w' = (if errors (stats aToB) + errors (stats bToA) + orphanErrors orphanResult > 0 \<and>
                        telegramBotToken config \<noteq> [] \<and> telegramChatId config \<noteq> []
                     then sendTelegramError simulated
                            (CompletedWithErrors (stats aToB) (stats bToA)
                               (orphansDeleted orphanResult) (orphanErrors orphanResult)) w9
                     else w9)))"
proof (intro conjI allI impI)
  show "ledgerReads w' = ledgerReads w + 1"
    using assms unfolding syncGoogleCalendarsWorkflow_def runStep_def Let_def
    by (auto split: option.splits prod.splits sum.splits if_splits dest!: body_reads
        simp: reads_telegram)
next
  fix outp
  assume "result = Inr outp"
  with assms have "syncGoogleCalendarsBody simulated config w = Some (Inr outp, w')"
    unfolding syncGoogleCalendarsWorkflow_def
    by (auto split: option.splits prod.splits sum.splits)
  then obtain fetchA w1 fetchB w2 syncedRecords w3 aToB w4 w5 bToA w6 w7 orphanResult w8 w9 where
    s1: "fetchCalendarEvents simulated (calendarAId config) (maxEvents config) (daysAhead config) w
         = (fetchA, w1)"
    and s2: "fetchCalendarEvents simulated (calendarBId config) (maxEvents config)
         (daysAhead config) w1 = (fetchB, w2)"
    and s3: "loadSheetRecords simulated w2 = (Inr syncedRecords, w3)"
    and s4: "syncDirection simulated (fulfilledOr [] fetchA) syncedRecords (calendarAId config)
         (calendarBId config) (calendarAPrefix config) w3 = Some (aToB, w4)"
    and s5: "batchWrite simulated aToB w4 = (Inr (), w5)"
    and s6: "syncDirection simulated (fulfilledOr [] fetchB) syncedRecords (calendarBId config)
         (calendarAId config) (calendarBPrefix config) w5 = Some (bToA, w6)"
    and s7: "batchWrite simulated bToA w6 = (Inr (), w7)"
    and s8: "detectAndDeleteOrphans simulated (fulfilledOr [] fetchA) (fulfilledOr [] fetchB)
         syncedRecords (calendarAId config) (calendarBId config) w7 = Some (orphanResult, w8)"
    and s9: "batchDeleteOrphanRows simulated orphanResult w8 = (Inr (), w9)"
    and so: "outp = \<lparr> aToBStats = stats aToB, bToAStats = stats bToA,
          deletionStats = \<lparr> ds_deleted = orphansDeleted orphanResult,
                            ds_errors = orphanErrors orphanResult \<rparr>,
          eventsA = length (fulfilledOr [] fetchA), eventsB = length (fulfilledOr [] fetchB),
          sheetRecords = length syncedRecords \<rparr>"
    and sw: "w' = (if errors (stats aToB) + errors (stats bToA) + orphanErrors orphanResult > 0 \<and>
                telegramBotToken config \<noteq> [] \<and> telegramChatId config \<noteq> []
             then sendTelegramError simulated
                    (CompletedWithErrors (stats aToB) (stats bToA) (orphansDeleted orphanResult)
                       (orphanErrors orphanResult)) w9
             else w9)"
    by (rule body_success)
  have r2: "ledgerReads w2 = ledgerReads w"
    using reads_fetch [OF s1] reads_fetch [OF s2] by simp
  have r3: "ledgerReads w3 = ledgerReads w + 1" using reads_load [OF s3] r2 by simp
  have r4: "ledgerReads w4 = ledgerReads w3" using s4 by (rule reads_syncDirection)
  have r5: "ledgerReads w5 = ledgerReads w3" using reads_batchWrite [OF s5] r4 by simp
  have r6: "ledgerReads w6 = ledgerReads w3" using reads_syncDirection [OF s6] r5 by simp
  have r7: "ledgerReads w7 = ledgerReads w3" using reads_batchWrite [OF s7] r6 by simp
  have r8: "ledgerReads w8 = ledgerReads w3" using reads_detect [OF s8] r7 by simp
  have r9: "ledgerReads w9 = ledgerReads w3" using reads_deleteRows [OF s9] r8 by simp
  from s1 s2 r2 s3 r3 s4 s5 s6 s7 s8 s9 r4 r5 r6 r7 r8 r9 so sw
  show "\<exists>fetchA w1 fetchB w2 syncedRecords w3 aToB w4 w5 bToA w6 w7 orphanResult w8 w9.
               fetchCalendarEvents simulated (calendarAId config) (maxEvents config)
                 (daysAhead config) w = (fetchA, w1) \<and>
               fetchCalendarEvents simulated (calendarBId config) (maxEvents config)
                 (daysAhead config) w1 = (fetchB, w2) \<and>
               ledgerReads w2 = ledgerReads w \<and>
               loadSheetRecords simulated w2 = (Inr syncedRecords, w3) \<and>
               ledgerReads w3 = ledgerReads w + 1 \<and>
               syncDirection simulated (fulfilledOr [] fetchA) syncedRecords (calendarAId config)
                 (calendarBId config) (calendarAPrefix config) w3 = Some (aToB, w4) \<and>
               batchWrite simulated aToB w4 = (Inr (), w5) \<and>
               syncDirection simulated (fulfilledOr [] fetchB) syncedRecords (calendarBId config)
                 (calendarAId config) (calendarBPrefix config) w5 = Some (bToA, w6) \<and>
               batchWrite simulated bToA w6 = (Inr (), w7) \<and>
               detectAndDeleteOrphans simulated (fulfilledOr [] fetchA) (fulfilledOr [] fetchB)
                 syncedRecords (calendarAId config) (calendarBId config) w7 =
                 Some (orphanResult, w8) \<and>
               batchDeleteOrphanRows simulated orphanResult w8 = (Inr (), w9) \<and>
               ledgerReads w4 = ledgerReads w3 \<and> ledgerReads w5 = ledgerReads w3 \<and>
               ledgerReads w6 = ledgerReads w3 \<and> ledgerReads w7 = ledgerReads w3 \<and>
               ledgerReads w8 = ledgerReads w3 \<and> ledgerReads w9 = ledgerReads w3 \<and>
               outp = \<lparr> aToBStats = stats aToB, bToAStats = stats bToA,
                        deletionStats = \<lparr> ds_deleted = orphansDeleted orphanResult,
                                          ds_errors = orphanErrors orphanResult \<rparr>,
                        eventsA = length (fulfilledOr [] fetchA),
                        eventsB = length (fulfilledOr [] fetchB),
                        sheetRecords = length syncedRecords \<rparr> \<and>
               w' = (if errors (stats aToB) + errors (stats bToA) + orphanErrors orphanResult > 0 \<and>
                        telegramBotToken config \<noteq> [] \<and> telegramChatId config \<noteq> []
                     then sendTelegramError simulated
                            (CompletedWithErrors (stats aToB) (stats bToA)
                               (orphansDeleted orphanResult) (orphanErrors orphanResult)) w9
                     else w9)"
    by blast
qed

lemma idle_fields:
  "calendars idleWorld = (\<lambda>c. None)(''A'' \<mapsto> [], ''B'' \<mapsto> [])"
  "faults idleWorld = []" "journal idleWorld = []" "tombstones idleWorld = []"
  "sheet idleWorld = [HEADERS]" "sheetIdentifier idleWorld = 7"
  by (simp_all add: idleWorld_def freshWorld_def)

lemma analyze_nothing:
  "analyzeEvents [] recs src tgt =
     \<lparr> toCreate = [], toUpdate = [], unchanged = 0, skippedDuplicate = 0 \<rparr>"
  by (simp add: analyzeEvents_def)

theorem ledger_read_once_witness:
  "\<exists>outp w'. syncGoogleCalendarsWorkflow simulated sampleConfig outageWorld = Some (Inr outp, w') \<and>
     ledgerReads outageWorld = 0 \<and> ledgerReads w' = 1 \<and> sheetRecords outp = 1 \<and>
     ds_deleted (deletionStats outp) = 1 \<and>
     journal w' = [ListEvents ''A'', ListEvents ''B'', GetValues, DeleteEvent ''B'' ''copy1'',
                   GetSpreadsheet, BatchUpdateSpreadsheet [DeleteDimension 7 1 2]]"
proof -
  from outage_run obtain outp w' where
    b: "syncGoogleCalendarsBody simulated sampleConfig outageWorld = Some (Inr outp, w')"
    and o: "sheetRecords outp = 1" "ds_deleted (deletionStats outp) = 1"
    and j: "journal w' = [ListEvents ''A'', ListEvents ''B'', GetValues,
              DeleteEvent ''B'' ''copy1'', GetSpreadsheet,
              BatchUpdateSpreadsheet [DeleteDimension 7 1 2]]"
    by auto
  from b have w: "syncGoogleCalendarsWorkflow simulated sampleConfig outageWorld =
                    Some (Inr outp, w')"
    by (simp add: syncGoogleCalendarsWorkflow_def)
  have z: "ledgerReads outageWorld = 0" by (simp add: ledgerReads_def outage_fields)
  from ledger_read_once [OF w] z have "ledgerReads w' = 1" by simp
  with w o j z show ?thesis by blast
qed

text \<open>The claim as written fails on the workflow of google-calendar-sync/src/sync-core.ts:
  with two empty calendars and an empty ledger its pass runs to its end and has read the
  ledger three times.\<close>

theorem ledger_read_once_counterexample:
  "fst (syncGoogleCalendarsWorkflow_perItem simulated sampleConfig idleWorld) =
     Inr \<lparr> aToBStats = \<lparr> created = 0, updated = 0, deleted = 0, errors = 0 \<rparr>,
           bToAStats = \<lparr> created = 0, updated = 0, deleted = 0, errors = 0 \<rparr>,
           deletionStats = \<lparr> ds_deleted = 0, ds_errors = 0 \<rparr>,
           eventsA = 0, eventsB = 0, sheetRecords = 0 \<rparr> \<and>
   journal (snd (syncGoogleCalendarsWorkflow_perItem simulated sampleConfig idleWorld)) =
     [ListEvents ''A'', ListEvents ''B'', GetValues, GetValues, GetValues] \<and>
   ledgerReads (snd (syncGoogleCalendarsWorkflow_perItem simulated sampleConfig idleWorld)) = 3"
  unfolding syncGoogleCalendarsWorkflow_perItem_def syncGoogleCalendarsBody_perItem_def
    runStep_def sampleConfig_def
  by (simp add: fetch_simulated load_simulated idle_fields HEADERS_def
      syncDirection_perItem_def analyze_nothing detectAndDeleteOrphans_perItem_def
      fulfilledOr_def ledgerReads_def)
section \<open>Idempotence: lists of rows\<close>

lemma lastMatch_decomp:
  "lastMatch P xs = Some x \<longleftrightarrow> (\<exists>pre post. xs = pre @ x # post \<and> P x \<and> (\<forall>y\<in>set post. \<not> P y))"
proof (induction xs)
  case Nil
  show ?case by simp
next
  case (Cons a xs)
  show ?case
  proof
    assume l: "lastMatch P (a # xs) = Some x"
    show "\<exists>pre post. a # xs = pre @ x # post \<and> P x \<and> (\<forall>y\<in>set post. \<not> P y)"
    proof (cases "lastMatch P xs")
      case None
      with l have "P a" "x = a" by (auto split: if_splits)
      moreover from None have "\<forall>y\<in>set xs. \<not> P y" by (simp add: lastMatch_None)
      ultimately have "a # xs = [] @ x # xs \<and> P x \<and> (\<forall>y\<in>set xs. \<not> P y)" by simp
      then show ?thesis by blast
    next
      case (Some y)
      with l have "lastMatch P xs = Some x" by simp
      with Cons obtain pre post where "xs = pre @ x # post" "P x" "\<forall>y\<in>set post. \<not> P y" by blast
      then have "a # xs = (a # pre) @ x # post \<and> P x \<and> (\<forall>y\<in>set post. \<not> P y)" by simp
      then show ?thesis by blast
    qed
  next
    assume "\<exists>pre post. a # xs = pre @ x # post \<and> P x \<and> (\<forall>y\<in>set post. \<not> P y)"
    then obtain pre post where d: "a # xs = pre @ x # post" "P x" "\<forall>y\<in>set post. \<not> P y" by blast
    show "lastMatch P (a # xs) = Some x"
    proof (cases pre)
      case Nil
      with d have "a = x" "xs = post" by simp_all
      with d(2,3) show ?thesis by (simp add: lastMatch_None [THEN iffD2])
    next
      case (Cons b pre')
      with d have "xs = pre' @ x # post" by simp
      with d(2,3) have "lastMatch P xs = Some x" using Cons.IH by blast
      then show ?thesis by simp
    qed
  qed
qed











section \<open>Idempotence: lookups in the parsed ledger\<close>






lemma parseRow_fields [simp]:
  "rowNumber (parseRow row j) = int j + 2"
  "primary_calendar (parseRow row j) = cell row 0"
  "primary_event_id (parseRow row j) = cell row 1"
  "secondary_calendar (parseRow row j) = cell row 2"
  "secondary_event_id (parseRow row j) = cell row 3"
  "event_signature (parseRow row j) = cell row 7"
  "created_at (parseRow row j) = cell row 8"
  by (simp_all add: parseRow_def)










section \<open>Idempotence: the sheet after a pass\<close>




section \<open>Idempotence: what calendar requests do\<close>















section \<open>Idempotence: a pass without errors\<close>





lemma cell_insertRow [simp]:
  "cell (insertRow i now) 0 = ins_primary_calendar i"
  "cell (insertRow i now) (Suc 0) = ins_primary_event_id i"
  "cell (insertRow i now) 7 = ins_event_signature i"
  by (simp_all add: cell_def insertRow_def)

lemma cell_updateRow [simp]:
  "cell (updateRow u now) 0 = pu_primary_calendar u"
  "cell (updateRow u now) (Suc 0) = pu_primary_event_id u"
  "cell (updateRow u now) 7 = pu_event_signature u"
  by (simp_all add: cell_def updateRow_def)








section \<open>Idempotence: a pass over a settled state\<close>






section \<open>Idempotence: rows rewritten and rows appended\<close>























section \<open>Idempotence: the effect of the first pass\<close>





section \<open>Idempotence: two passes\<close>
















end
